theory Spec2Isabelle
  imports Main "HOL-Library.Monad_Syntax"
begin

section \<open>Strings\<close>

text \<open>
  A Python \<^verbatim>\<open>str\<close> is a sequence of Unicode code points, so a string is a list of
  code points here; \<open>U\<close> turns a literal into one.
\<close>

type_synonym ustr = "nat list"

definition U :: "string \<Rightarrow> ustr" where
  "U s = map of_char s"

text \<open>
  \<^verbatim>\<open>str.isspace\<close> on one code point: the white-space table of CPython
  (\<^verbatim>\<open>_PyUnicode_IsWhitespace\<close>).
\<close>

definition isspace :: "nat \<Rightarrow> bool" where
  "isspace c \<longleftrightarrow>
     (0x09 \<le> c \<and> c \<le> 0x0D) \<or> (0x1C \<le> c \<and> c \<le> 0x20) \<or> c = 0x85 \<or> c = 0xA0 \<or>
     c = 0x1680 \<or> (0x2000 \<le> c \<and> c \<le> 0x200A) \<or> c = 0x2028 \<or> c = 0x2029 \<or>
     c = 0x202F \<or> c = 0x205F \<or> c = 0x3000"

text \<open>\<^verbatim>\<open>s.strip()\<close>: white space removed at both ends.\<close>

definition strip :: "ustr \<Rightarrow> ustr" where
  "strip s = rev (dropWhile isspace (rev (dropWhile isspace s)))"

text \<open>
  The decimal digits. The ASCII digits are fixed; which other code points the interpreter's
  Unicode database counts as decimal digits (the class \<^verbatim>\<open>\d\<close> of \<^verbatim>\<open>re\<close> and the digits
  \<^verbatim>\<open>int()\<close> reads), and with which value, depends on the interpreter, and is the parameter
  \<open>nd\<close> of everything below: \<open>nd c = Some v\<close> when the non-ASCII code point \<open>c\<close> is a
  decimal digit of value \<open>v\<close>. An interpreter whose pattern matches ASCII digits only is
  \<open>nd = (\<lambda>_. None)\<close>.
\<close>

definition decimal :: "(nat \<Rightarrow> nat option) \<Rightarrow> nat \<Rightarrow> nat option" where
  "decimal nd c = (if 48 \<le> c \<and> c \<le> 57 then Some (c - 48) else if c < 128 then None else nd c)"

text \<open>
  \<^verbatim>\<open>int(s)\<close> on the strings the date pattern captures: decimal digits, with white space
  around them ignored. Any other character is the \<^verbatim>\<open>ValueError\<close> of \<^verbatim>\<open>int\<close>, \<open>None\<close>
  here (signs and underscores, which no group of the pattern can hold, are not modelled).
\<close>

fun int_digits :: "(nat \<Rightarrow> nat option) \<Rightarrow> int \<Rightarrow> ustr \<Rightarrow> int option" where
  "int_digits nd acc [] = Some acc"
| "int_digits nd acc (c # cs) =
     (case decimal nd c of
        None \<Rightarrow> None
      | Some v \<Rightarrow> int_digits nd (10 * acc + int v) cs)"

definition py_int :: "(nat \<Rightarrow> nat option) \<Rightarrow> ustr \<Rightarrow> int option" where
  "py_int nd s = (if strip s = [] then None else int_digits nd 0 (strip s))"

text \<open>\<^verbatim>\<open>'{}'.format(i)\<close> for an integer: its decimal digits, after a minus sign if negative.\<close>

fun digits :: "nat \<Rightarrow> ustr" where
  "digits n = (if n < 10 then [48 + n] else digits (n div 10) @ [48 + n mod 10])"

declare digits.simps [simp del]

definition str_int :: "int \<Rightarrow> ustr" where
  "str_int i = (if i < 0 then 45 # digits (nat (- i)) else digits (nat i))"

section \<open>Exceptions\<close>

text \<open>
  The exceptions the program can raise, one constructor per raising place:
  \<^item> \<open>AttributeError\<close>: \<^verbatim>\<open>None.strip\<close>, a cell without text;
  \<^item> \<open>TimeDataMismatch\<close>, \<open>UnconvertedData\<close>, \<open>DateOutOfRange\<close>: the three
    \<^verbatim>\<open>ValueError\<close>s of \<^verbatim>\<open>strptime\<close> (no match; text left after the match; no such day);
  \<^item> \<open>UnicodeEncodeError\<close>: \<^verbatim>\<open>encode('ascii')\<close> on a non-ASCII character (a subclass of
    \<^verbatim>\<open>ValueError\<close>);
  \<^item> \<open>PnpIdLength\<close>: \<^verbatim>\<open>ValueError('PNP ID must be exactly 3 characters')\<close>;
  \<^item> \<open>InputError\<close>: the file cannot be read or is not XML (\<^verbatim>\<open>OSError\<close>, \<^verbatim>\<open>ParseError\<close>);
  \<^item> \<open>OutputError\<close>: the output file cannot be opened for writing (\<^verbatim>\<open>OSError\<close>).
\<close>

datatype error =
    AttributeError
  | TimeDataMismatch
  | UnconvertedData
  | DateOutOfRange
  | UnicodeEncodeError
  | PnpIdLength
  | InputError
  | OutputError

text \<open>The exceptions that are instances of Python's \<^verbatim>\<open>ValueError\<close>.\<close>

fun is_ValueError :: "error \<Rightarrow> bool" where
  "is_ValueError TimeDataMismatch = True"
| "is_ValueError UnconvertedData = True"
| "is_ValueError DateOutOfRange = True"
| "is_ValueError UnicodeEncodeError = True"
| "is_ValueError PnpIdLength = True"
| "is_ValueError _ = False"

text \<open>The errors of \<^verbatim>\<open>strptime\<close>.\<close>

definition date_error :: "error \<Rightarrow> bool" where
  "date_error e \<longleftrightarrow> e = TimeDataMismatch \<or> e = UnconvertedData \<or> e = DateOutOfRange"

text \<open>
  What iterating a generator shows: the items it yields, in order, and how it ends, by
  returning (\<open>None\<close>) or by raising (\<open>Some e\<close>).
\<close>

type_synonym 'a run = "'a list \<times> error option"

section \<open>The element tree\<close>

text \<open>
  An \<^verbatim>\<open>xml.etree.ElementTree\<close> element: its tag, its text (\<^verbatim>\<open>None\<close> when no text comes
  before its first child or its end) and its children.
\<close>

datatype element = Element (tag: ustr) (elem_text: "ustr option") (children: "element list")

text \<open>\<^verbatim>\<open>elem.iter()\<close>: the element and all its descendants, in document order.\<close>

fun iter :: "element \<Rightarrow> element list" where
  "iter (Element t x cs) = Element t x cs # concat (map iter cs)"

text \<open>
  The two steps of an ElementPath: \<^verbatim>\<open>//t\<close> selects the proper descendants with tag \<open>t\<close>,
  \<^verbatim>\<open>/t\<close> (and a bare \<^verbatim>\<open>t\<close>) the children with tag \<open>t\<close>; a step applies to each element
  of the previous step's result in turn.
\<close>

definition descendants_tagged :: "ustr \<Rightarrow> element \<Rightarrow> element list" where
  "descendants_tagged t e = filter (\<lambda>d. tag d = t) (concat (map iter (children e)))"

definition children_tagged :: "ustr \<Rightarrow> element \<Rightarrow> element list" where
  "children_tagged t e = filter (\<lambda>c. tag c = t) (children e)"

text \<open>\<^verbatim>\<open>root.findall('.//body/table/tbody/tr')\<close>\<close>

definition findall_rows :: "element \<Rightarrow> element list" where
  "findall_rows root =
     concat (map (children_tagged (U ''tr''))
       (concat (map (children_tagged (U ''tbody''))
         (concat (map (children_tagged (U ''table''))
           (descendants_tagged (U ''body'') root))))))"

text \<open>\<^verbatim>\<open>row.findall('td')\<close>\<close>

definition findall_td :: "element \<Rightarrow> element list" where
  "findall_td row = children_tagged (U ''td'') row"

section \<open>Dates\<close>

record date =
  year :: int
  month :: int
  day :: int

definition is_leap :: "int \<Rightarrow> bool" where
  "is_leap y \<longleftrightarrow> y mod 4 = 0 \<and> (y mod 100 \<noteq> 0 \<or> y mod 400 = 0)"

definition days_in_month :: "int \<Rightarrow> int \<Rightarrow> int" where
  "days_in_month y m =
     (if m = 2 then (if is_leap y then 29 else 28)
      else if m = 4 \<or> m = 6 \<or> m = 9 \<or> m = 11 then 30 else 31)"

text \<open>
  \<^verbatim>\<open>datetime.date(y, m, d)\<close>: the constructor checks the year (1 to 9999), the month and
  the day of the month, and raises \<^verbatim>\<open>ValueError\<close> otherwise.
\<close>

definition make_date :: "int \<Rightarrow> int \<Rightarrow> int \<Rightarrow> error + date" where
  "make_date y m d =
     (if 1 \<le> y \<and> y \<le> 9999 \<and> 1 \<le> m \<and> m \<le> 12 \<and> 1 \<le> d \<and> d \<le> days_in_month y m
      then Inr \<lparr>year = y, month = m, day = d\<rparr>
      else Inl DateOutOfRange)"

section \<open>\<^verbatim>\<open>strptime(raw_date, '%m/%d/%Y')\<close>\<close>

text \<open>
  \<^verbatim>\<open>strptime\<close> compiles the format to a regular expression and matches it at the start
  of the string. The directives of this format are
  \<^item> \<^verbatim>\<open>%m\<close>: \<^verbatim>\<open>(?P<m>1[0-2]|0[1-9]|[1-9])\<close>
  \<^item> \<^verbatim>\<open>%d\<close>: \<^verbatim>\<open>(?P<d>3[0-1]|[1-2]\d|0[1-9]|[1-9]| [1-9])\<close>
  \<^item> \<^verbatim>\<open>%Y\<close>: \<^verbatim>\<open>(?P<Y>\d\d\d\d)\<close>

  joined by the two slashes. The expressions below are these, and \<open>rmatch\<close> is the
  backtracking matcher: the remainders of the string after each way the expression
  matches a prefix, in the order the \<^verbatim>\<open>re\<close> module tries them (an earlier alternative first).
\<close>

datatype re =
    Chr nat
  | Rng nat nat
  | Digit
  | Seq re re
  | Alt re re

fun rmatch :: "(nat \<Rightarrow> nat option) \<Rightarrow> re \<Rightarrow> ustr \<Rightarrow> ustr list" where
  "rmatch nd (Chr c) s = (case s of [] \<Rightarrow> [] | x # r \<Rightarrow> if x = c then [r] else [])"
| "rmatch nd (Rng a b) s = (case s of [] \<Rightarrow> [] | x # r \<Rightarrow> if a \<le> x \<and> x \<le> b then [r] else [])"
| "rmatch nd Digit s = (case s of [] \<Rightarrow> [] | x # r \<Rightarrow> if decimal nd x \<noteq> None then [r] else [])"
| "rmatch nd (Seq p q) s = concat (map (rmatch nd q) (rmatch nd p s))"
| "rmatch nd (Alt p q) s = rmatch nd p s @ rmatch nd q s"

definition re_m :: re where
  "re_m = Alt (Seq (Chr 49) (Rng 48 50)) (Alt (Seq (Chr 48) (Rng 49 57)) (Rng 49 57))"

definition re_d :: re where
  "re_d = Alt (Seq (Chr 51) (Rng 48 49))
            (Alt (Seq (Rng 49 50) Digit)
              (Alt (Seq (Chr 48) (Rng 49 57))
                (Alt (Rng 49 57) (Seq (Chr 32) (Rng 49 57)))))"

definition re_Y :: re where
  "re_Y = Seq Digit (Seq Digit (Seq Digit Digit))"

text \<open>The text a group captured: what lies between the string before and the remainder after.\<close>

definition captured :: "ustr \<Rightarrow> ustr \<Rightarrow> ustr" where
  "captured s r = take (length s - length r) s"

text \<open>
  All matches of the whole pattern, in the matcher's order: the three groups and the
  unmatched rest of the string. \<^verbatim>\<open>match\<close> returns the first.
\<close>

definition date_matches :: "(nat \<Rightarrow> nat option) \<Rightarrow> ustr \<Rightarrow> (ustr \<times> ustr \<times> ustr \<times> ustr) list" where
  "date_matches nd s =
     concat (map (\<lambda>r1.
       concat (map (\<lambda>r2.
         concat (map (\<lambda>r3.
           concat (map (\<lambda>r4.
             map (\<lambda>r5. (captured s r1, captured r2 r3, captured r4 r5, r5))
               (rmatch nd re_Y r4))
             (rmatch nd (Chr 47) r3)))
           (rmatch nd re_d r2)))
         (rmatch nd (Chr 47) r1)))
       (rmatch nd re_m s))"

text \<open>
  \<^verbatim>\<open>datetime.datetime.strptime(s, '%m/%d/%Y').date()\<close>: no match and text left after
  the match are errors; the groups are read with \<^verbatim>\<open>int\<close> and the date is built, which
  fails when the month has no such day or the year is 0. (A group that \<^verbatim>\<open>int\<close> cannot
  read would be a \<^verbatim>\<open>ValueError\<close> as well; the pattern captures digits only, so this does
  not happen with the digits of an interpreter.)
\<close>

definition strptime :: "(nat \<Rightarrow> nat option) \<Rightarrow> ustr \<Rightarrow> error + date" where
  "strptime nd s =
     (case date_matches nd s of
        [] \<Rightarrow> Inl TimeDataMismatch
      | (gm, gd, gY, rest) # _ \<Rightarrow>
          if rest \<noteq> [] then Inl UnconvertedData
          else (case (py_int nd gY, py_int nd gm, py_int nd gd) of
                  (Some y, Some m, Some d) \<Rightarrow> make_date y m d
                | _ \<Rightarrow> Inl TimeDataMismatch))"

section \<open>The parser\<close>

text \<open>
  Modelled from the spec: \<^verbatim>\<open>bios_pnp.pnp.Vendor\<close>, the record type the parser builds and
  the generator reads, is not among the sources; the spec gives it three fields, the name,
  the ID and the approval date.
\<close>

record vendor =
  name :: ustr
  pnp_id :: ustr
  approval_date :: date

text \<open>
  \<^verbatim>\<open>len(pnp_id.encode('ascii')) != 3\<close>: encoding raises on a code point above 127, and
  gives one byte per character otherwise.
\<close>

definition encode_ascii :: "ustr \<Rightarrow> error + nat list" where
  "encode_ascii s = (if \<forall>c \<in> set s. c < 128 then Inr s else Inl UnicodeEncodeError)"

text \<open>
  The body of the loop for one row: \<open>Inr None\<close> when the row is passed over (it has
  not exactly three \<^verbatim>\<open>td\<close> children), \<open>Inr (Some v)\<close> when it yields \<open>v\<close>, \<open>Inl e\<close> when
  it raises \<open>e\<close>. The three cells are stripped first, which raises when one of them has
  no text (\<^verbatim>\<open>None.strip\<close>); then the date is parsed; then the ID is checked.
\<close>

definition parse_row :: "(nat \<Rightarrow> nat option) \<Rightarrow> element \<Rightarrow> error + vendor option" where
  "parse_row nd row =
     (case findall_td row of
        [td1, td2, td3] \<Rightarrow>
          (case (elem_text td1, elem_text td2, elem_text td3) of
             (Some t1, Some t2, Some t3) \<Rightarrow>
               (let name = strip t1; pnp_id = strip t2; raw_date = strip t3
                in case strptime nd raw_date of
                     Inl e \<Rightarrow> Inl e
                   | Inr date \<Rightarrow>
                       (case encode_ascii pnp_id of
                          Inl e \<Rightarrow> Inl e
                        | Inr bytes \<Rightarrow>
                            if length bytes \<noteq> 3 then Inl PnpIdLength
                            else Inr (Some \<lparr>name = name, pnp_id = pnp_id, approval_date = date\<rparr>)))
           | _ \<Rightarrow> Inl AttributeError)
      | _ \<Rightarrow> Inr None)"

text \<open>The loop over the rows: it stops at the first row that raises.\<close>

fun parse_rows :: "(nat \<Rightarrow> nat option) \<Rightarrow> element list \<Rightarrow> vendor run" where
  "parse_rows nd [] = ([], None)"
| "parse_rows nd (row # rows) =
     (case parse_row nd row of
        Inl e \<Rightarrow> ([], Some e)
      | Inr None \<Rightarrow> parse_rows nd rows
      | Inr (Some v) \<Rightarrow> (case parse_rows nd rows of (vs, r) \<Rightarrow> (v # vs, r)))"

text \<open>
  \<^verbatim>\<open>parse_spreadsheet\<close>. Its argument is what \<^verbatim>\<open>ElementTree.ElementTree(file=path)\<close>
  makes of the file: an error, or the root element of the document.
\<close>

definition parse_spreadsheet :: "(nat \<Rightarrow> nat option) \<Rightarrow> error + element \<Rightarrow> vendor run" where
  "parse_spreadsheet nd file =
     (case file of
        Inl e \<Rightarrow> ([], Some e)
      | Inr root \<Rightarrow> parse_rows nd (findall_rows root))"

section \<open>The generator\<close>

text \<open>
  What \<^verbatim>\<open>for x in xs\<close> reads from \<open>xs\<close>, and what it leaves of it. A sequence (a list, a
  tuple) can be read any number of times. A generator, such as the parser, is read once:
  after its items (and the exception it may end with) have come out, it is exhausted.
\<close>

datatype 'a iterable = Sequence "'a list" | Generator "'a run"

fun iterate :: "'a iterable \<Rightarrow> 'a run \<times> 'a iterable" where
  "iterate (Sequence xs) = ((xs, None), Sequence xs)"
| "iterate (Generator r) = (r, Generator ([], None))"

text \<open>The double quote of the format strings, as a one-character string.\<close>

definition dq :: ustr where
  "dq = [34]"

text \<open>\<^verbatim>\<open>'datetime.date({}, {}, {})'.format(d.year, d.month, d.day)\<close>\<close>

definition date_expr :: "date \<Rightarrow> ustr" where
  "date_expr d =
     U ''datetime.date('' @ str_int (year d) @ U '', '' @ str_int (month d) @ U '', '' @
     str_int (day d) @ U '')''"

text \<open>
  The body of the loop: \<^verbatim>\<open>value\<close> is
  \<^verbatim>\<open>pnp.Vendor(\<close>\<open>dq name dq\<close>\<^verbatim>\<open>, \<close>\<open>dq pnp_id dq\<close>\<^verbatim>\<open>, \<close>\<open>date\<close>\<^verbatim>\<open>)\<close>, and the line is four spaces,
  \<open>dq key dq\<close>\<^verbatim>\<open>: \<close>\<open>value\<close> and a comma.
\<close>

definition vendor_line :: "vendor \<Rightarrow> ustr" where
  "vendor_line vendor =
     (let date = date_expr (approval_date vendor);
          key = pnp_id vendor;
          value = U ''pnp.Vendor('' @ dq @ name vendor @ dq @ U '', '' @ dq @ pnp_id vendor @ dq @
                  U '', '' @ date @ U '')''
      in U ''    '' @ dq @ key @ dq @ U '': '' @ value @ U '','')"

definition preamble :: "ustr list" where
  "preamble =
     [U ''# THIS FILE WAS AUTOGENERATED BY make_vendor_list.py!'',
      U ''# pylint: disable=line-too-long,missing-docstring,too-many-lines'',
      U ''# yapf: disable'',
      U ''import datetime'',
      U ''from bios_pnp import pnp'']"

definition opening_line :: ustr where
  "opening_line = U ''VENDORS = {''"

definition closing_lines :: "ustr list" where
  "closing_lines = [U ''}'', U ''# yapf: enable'', []]"

text \<open>
  \<^verbatim>\<open>generate_vendor_module(vendors)\<close>: the lines it yields and how it ends, with what is
  left of \<open>vendors\<close>. When reading \<open>vendors\<close> raises, the exception passes through the
  generator after the lines yielded so far, and the last three lines are never reached.
\<close>

definition generate_vendor_module :: "vendor iterable \<Rightarrow> ustr run \<times> vendor iterable" where
  "generate_vendor_module vendors =
     (case iterate vendors of
        ((vs, raised), vendors') \<Rightarrow>
          ((preamble @ [opening_line] @ map vendor_line vs @
              (case raised of None \<Rightarrow> closing_lines | Some e \<Rightarrow> []),
            raised),
           vendors'))"

section \<open>The driver\<close>

text \<open>\<^verbatim>\<open>'\n'.join(lines)\<close>\<close>

fun join_lines :: "ustr list \<Rightarrow> ustr" where
  "join_lines [] = []"
| "join_lines [l] = l"
| "join_lines (l # m # ls) = l @ 10 # join_lines (m # ls)"

text \<open>
  \<^verbatim>\<open>main\<close>, after the command line has been read. The state is the content of the
  output file (\<open>None\<close> when there is no such file); \<open>can_open\<close> says whether
  \<^verbatim>\<open>open(output_path, 'w')\<close> succeeds, and when it does the file is empty from then on.
  \<^verbatim>\<open>parse_spreadsheet\<close> is a generator, so nothing of it has run yet: the file is read
  and parsed inside \<^verbatim>\<open>join\<close>, which raises what the generators raise, before
  \<^verbatim>\<open>write\<close> is reached. The result is the file's content at exit, and the exception the
  process died of, if any.
\<close>

definition main :: "(nat \<Rightarrow> nat option) \<Rightarrow> error + element \<Rightarrow> bool \<Rightarrow> ustr option \<Rightarrow>
    ustr option \<times> error option" where
  "main nd file can_open old_content =
     (let vendors = Generator (parse_spreadsheet nd file) in
      if \<not> can_open then (old_content, Some OutputError)
      else
        (let wfile = Some [] in
         case fst (generate_vendor_module vendors) of
           (lines, Some e) \<Rightarrow> (wfile, Some e)
         | (lines, None) \<Rightarrow> (Some (join_lines lines), None)))"

section \<open>Notions of the specification\<close>

subsection \<open>Rows and dates\<close>

text \<open>A row is a data row when it has exactly three cells.\<close>

definition data_row :: "element \<Rightarrow> bool" where
  "data_row row \<longleftrightarrow> length (findall_td row) = 3"

text \<open>
  What the parser's \<^verbatim>\<open>strip\<close> makes of the three cells of a row, when there are three and
  each has text.
\<close>

fun stripped_cells :: "ustr option list \<Rightarrow> (ustr \<times> ustr \<times> ustr) option" where
  "stripped_cells [Some t1, Some t2, Some t3] = Some (strip t1, strip t2, strip t3)"
| "stripped_cells _ = None"

definition row_cells :: "element \<Rightarrow> (ustr \<times> ustr \<times> ustr) option" where
  "row_cells row = stripped_cells (map elem_text (findall_td row))"

text \<open>
  Trimming, said by recursion over the string and without \<^verbatim>\<open>strip\<close>: the white space at
  the start goes, then the white space at the end. (Lemma \<open>trim_iff\<close> below says the same
  without a function: the trimmed text is the part of the string between a stretch of
  white space before and one after, and neither begins nor ends with white space.)
\<close>

fun drop_leading_space :: "ustr \<Rightarrow> ustr" where
  "drop_leading_space [] = []"
| "drop_leading_space (c # cs) = (if isspace c then drop_leading_space cs else c # cs)"

fun drop_trailing_space :: "ustr \<Rightarrow> ustr" where
  "drop_trailing_space [] = []"
| "drop_trailing_space (c # cs) =
     (if isspace c \<and> drop_trailing_space cs = [] then [] else c # drop_trailing_space cs)"

definition trim :: "ustr \<Rightarrow> ustr" where
  "trim t = drop_trailing_space (drop_leading_space t)"

text \<open>The texts of the three cells of a row, as the document has them, when there are three
  cells and each has text.\<close>

fun three_texts :: "ustr option list \<Rightarrow> (ustr \<times> ustr \<times> ustr) option" where
  "three_texts [Some t1, Some t2, Some t3] = Some (t1, t2, t3)"
| "three_texts _ = None"

definition row_texts :: "element \<Rightarrow> (ustr \<times> ustr \<times> ustr) option" where
  "row_texts row = three_texts (map elem_text (findall_td row))"

text \<open>An ID is valid when it encodes to exactly three ASCII bytes.\<close>

definition valid_id :: "ustr \<Rightarrow> bool" where
  "valid_id s \<longleftrightarrow> length s = 3 \<and> (\<forall>c \<in> set s. c < 128)"

definition ascii_digit :: "nat \<Rightarrow> bool" where
  "ascii_digit c \<longleftrightarrow> 48 \<le> c \<and> c \<le> 57"

definition digit_value :: "nat \<Rightarrow> int" where
  "digit_value c = int c - 48"

text \<open>
  The date a string in the form \<^verbatim>\<open>MM/DD/YYYY\<close> names: two digits, a slash, two digits, a
  slash, four digits, which read as decimal numbers are a month, a day of that month and
  a year from 1 on. \<open>None\<close> for any other string.
\<close>

fun mm_dd_yyyy :: "ustr \<Rightarrow> date option" where
  "mm_dd_yyyy [m1, m2, s1, d1, d2, s2, y1, y2, y3, y4] =
     (let y = 1000 * digit_value y1 + 100 * digit_value y2 + 10 * digit_value y3 + digit_value y4;
          m = 10 * digit_value m1 + digit_value m2;
          d = 10 * digit_value d1 + digit_value d2
      in if s1 = 47 \<and> s2 = 47 \<and> list_all ascii_digit [m1, m2, d1, d2, y1, y2, y3, y4] \<and>
            1 \<le> y \<and> 1 \<le> m \<and> m \<le> 12 \<and> 1 \<le> d \<and> d \<le> days_in_month y m
         then Some \<lparr>year = y, month = m, day = d\<rparr>
         else None)"
| "mm_dd_yyyy _ = None"

text \<open>
  A well-formed data row: three cells with text, of which the second, trimmed, is a valid
  ID and the third, trimmed, a valid date.
\<close>

definition well_formed_row :: "element \<Rightarrow> bool" where
  "well_formed_row row \<longleftrightarrow>
     (case row_texts row of
        Some (t1, t2, t3) \<Rightarrow> valid_id (trim t2) \<and> mm_dd_yyyy (trim t3) \<noteq> None
      | None \<Rightarrow> False)"

text \<open>
  A record matches a row: its name and its ID are the first and the second cell, trimmed,
  and its date is the date the third cell, trimmed, names.
\<close>

definition row_matches :: "element \<Rightarrow> vendor \<Rightarrow> bool" where
  "row_matches row v \<longleftrightarrow>
     (case row_texts row of
        Some (t1, t2, t3) \<Rightarrow>
          name v = trim t1 \<and> pnp_id v = trim t2 \<and> mm_dd_yyyy (trim t3) = Some (approval_date v)
      | None \<Rightarrow> False)"

subsection \<open>The dates \<^verbatim>\<open>strptime\<close> accepts, said without the matcher\<close>

text \<open>\<^verbatim>\<open>s.split(c)\<close>: the fields of a string between the occurrences of a character.\<close>

fun split_on :: "nat \<Rightarrow> ustr \<Rightarrow> ustr list" where
  "split_on sep [] = [[]]"
| "split_on sep (c # cs) =
     (if c = sep then [] # split_on sep cs
      else (case split_on sep cs of [] \<Rightarrow> [[c]] | f # fs \<Rightarrow> (c # f) # fs))"

text \<open>
  A month field: one digit from 1 to 9, or two digits from 01 to 12. A day field: one
  digit from 1 to 9, that digit after a zero or a space, or two digits from 10 to 31. A year
  field: four digits. Only the second digit of a day from 10 to 29 and the digits of a
  year may be digits outside ASCII.
\<close>

definition month_text :: "ustr \<Rightarrow> bool" where
  "month_text ms \<longleftrightarrow>
     (case ms of
        [a] \<Rightarrow> 49 \<le> a \<and> a \<le> 57
      | [a, b] \<Rightarrow> (a = 48 \<and> 49 \<le> b \<and> b \<le> 57) \<or> (a = 49 \<and> 48 \<le> b \<and> b \<le> 50)
      | _ \<Rightarrow> False)"

definition day_text :: "(nat \<Rightarrow> nat option) \<Rightarrow> ustr \<Rightarrow> bool" where
  "day_text nd ds \<longleftrightarrow>
     (case ds of
        [a] \<Rightarrow> 49 \<le> a \<and> a \<le> 57
      | [a, b] \<Rightarrow> (a = 51 \<and> 48 \<le> b \<and> b \<le> 49) \<or> ((a = 49 \<or> a = 50) \<and> decimal nd b \<noteq> None) \<or>
                  ((a = 48 \<or> a = 32) \<and> 49 \<le> b \<and> b \<le> 57)
      | _ \<Rightarrow> False)"

definition year_text :: "(nat \<Rightarrow> nat option) \<Rightarrow> ustr \<Rightarrow> bool" where
  "year_text nd ys \<longleftrightarrow> length ys = 4 \<and> (\<forall>c \<in> set ys. decimal nd c \<noteq> None)"

text \<open>
  The date a string names when it is a month field, a day field and a year field with a
  slash between them, and the numbers are a date of the calendar. \<open>None\<close> otherwise.
\<close>

definition lenient_date :: "(nat \<Rightarrow> nat option) \<Rightarrow> ustr \<Rightarrow> date option" where
  "lenient_date nd s =
     (case split_on 47 s of
        [ms, ds, ys] \<Rightarrow>
          if month_text ms \<and> day_text nd ds \<and> year_text nd ys then
            (case (py_int nd ys, py_int nd ms, py_int nd ds) of
               (Some y, Some m, Some d) \<Rightarrow>
                 (case make_date y m d of Inl _ \<Rightarrow> None | Inr dt \<Rightarrow> Some dt)
             | _ \<Rightarrow> None)
          else None
      | _ \<Rightarrow> None)"

text \<open>An interpreter that knows no decimal digits outside ASCII.\<close>

definition ascii_only :: "nat \<Rightarrow> nat option" where
  "ascii_only c = None"

subsection \<open>Loading the generated module\<close>

text \<open>
  What Python makes of a module's text when it loads it, for a small part of the language:
  comments and blank lines, the two import statements, the assignment of a mapping display
  to \<^verbatim>\<open>VENDORS\<close> with one entry per line, and in an entry a string literal without
  escapes as the key and the call of \<^verbatim>\<open>pnp.Vendor\<close> on two such literals and the call of
  \<^verbatim>\<open>datetime.date\<close> (which checks the date) on three decimal integer literals. Anything
  else is \<open>None\<close>. The reader is written from the language: it uses no constant of the
  generator, and its literals are written out here.
\<close>

definition expect :: "ustr \<Rightarrow> ustr \<Rightarrow> ustr option" where
  "expect p s = (if take (length p) s = p then Some (drop (length p) s) else None)"

text \<open>
  What cannot stand as it is inside a string literal in double quotes: the quote, the
  backslash, the line ends and the null character; and what is no character of a source
  text at all, the surrogates (\<^verbatim>\<open>U+D800\<close> to \<^verbatim>\<open>U+DFFF\<close>) and the numbers above the last code
  point, \<^verbatim>\<open>U+10FFFF\<close>.
\<close>

definition hostile :: "nat \<Rightarrow> bool" where
  "hostile c \<longleftrightarrow>
     c = 34 \<or> c = 92 \<or> c = 10 \<or> c = 13 \<or> c = 0 \<or> (0xD800 \<le> c \<and> c \<le> 0xDFFF) \<or> 0x10FFFF < c"

definition safe_text :: "ustr \<Rightarrow> bool" where
  "safe_text s \<longleftrightarrow> (\<forall>c \<in> set s. \<not> hostile c)"

text \<open>A string literal, read from after its first quote: its value and what follows it.\<close>

definition string_literal :: "ustr \<Rightarrow> (ustr \<times> ustr) option" where
  "string_literal s =
     (let body = takeWhile (\<lambda>c. c \<noteq> 34) s; r = drop (length body) s
      in if r = [] \<or> \<not> safe_text body then None else Some (body, tl r))"

text \<open>A decimal integer literal (no leading zero on a number above 0): its value and what follows.\<close>

definition int_literal :: "ustr \<Rightarrow> (int \<times> ustr) option" where
  "int_literal s =
     (let ds = takeWhile ascii_digit s
      in if ds = [] \<or> (hd ds = 48 \<and> 1 < length ds) then None
         else Some (foldl (\<lambda>a c. 10 * a + digit_value c) 0 ds, drop (length ds) s))"

text \<open>
  An entry of the display, on a line of its own after four spaces: the key and the value.
  The double quote that opens a string literal is written as its code point, 34.
\<close>

definition load_entry :: "ustr \<Rightarrow> (ustr \<times> vendor) option" where
  "load_entry line =
     do {
       r \<leftarrow> expect (U ''    '' @ [34]) line;
       (key, r) \<leftarrow> string_literal r;
       r \<leftarrow> expect (U '': pnp.Vendor('' @ [34]) r;
       (n, r) \<leftarrow> string_literal r;
       r \<leftarrow> expect (U '', '' @ [34]) r;
       (i, r) \<leftarrow> string_literal r;
       r \<leftarrow> expect (U '', datetime.date('') r;
       (y, r) \<leftarrow> int_literal r;
       r \<leftarrow> expect (U '', '') r;
       (m, r) \<leftarrow> int_literal r;
       r \<leftarrow> expect (U '', '') r;
       (d, r) \<leftarrow> int_literal r;
       r \<leftarrow> expect (U '')),'') r;
       (case make_date y m d of
          Inl e \<Rightarrow> None
        | Inr dt \<Rightarrow>
            if r = [] then Some (key, \<lparr>name = n, pnp_id = i, approval_date = dt\<rparr>) else None)
     }"

definition mapping_of :: "(ustr \<times> vendor) list \<Rightarrow> (ustr \<rightharpoonup> vendor)" where
  "mapping_of entries = fold (\<lambda>(k, v) m. m(k \<mapsto> v)) entries Map.empty"

text \<open>A line Python passes over: nothing but spaces and tabs, or a comment after them.\<close>

definition blank_or_comment :: "ustr \<Rightarrow> bool" where
  "blank_or_comment l \<longleftrightarrow>
     (case dropWhile (\<lambda>c. c = 32 \<or> c = 9) l of [] \<Rightarrow> True | c # _ \<Rightarrow> c = 35)"

text \<open>
  The lines of the module, run in order. The state is: whether \<^verbatim>\<open>datetime\<close> has been
  imported, whether \<^verbatim>\<open>pnp\<close> has, the entries of the display being read (\<open>None\<close> outside
  a display) and the entries assigned to \<^verbatim>\<open>VENDORS\<close> (\<open>None\<close> before the assignment). An
  entry is evaluated only when both names are bound (a \<^verbatim>\<open>NameError\<close> otherwise); the
  assignment takes place at the closing brace; a display still open at the end of the
  text is a syntax error. The result is the value of \<^verbatim>\<open>VENDORS\<close> at the end.
\<close>

fun load_lines :: "bool \<Rightarrow> bool \<Rightarrow> (ustr \<times> vendor) list option \<Rightarrow> (ustr \<times> vendor) list option \<Rightarrow>
    ustr list \<Rightarrow> (ustr \<times> vendor) list option" where
  "load_lines has_datetime has_pnp display vendors [] =
     (case display of None \<Rightarrow> vendors | Some entries \<Rightarrow> None)"
| "load_lines has_datetime has_pnp display vendors (l # ls) =
     (case display of
        None \<Rightarrow>
          if blank_or_comment l then load_lines has_datetime has_pnp None vendors ls
          else if l = U ''import datetime'' then load_lines True has_pnp None vendors ls
          else if l = U ''from bios_pnp import pnp'' then load_lines has_datetime True None vendors ls
          else if l = U ''VENDORS = {'' then load_lines has_datetime has_pnp (Some []) vendors ls
          else None
      | Some entries \<Rightarrow>
          if l = U ''}'' then load_lines has_datetime has_pnp None (Some entries) ls
          else if blank_or_comment l then load_lines has_datetime has_pnp (Some entries) vendors ls
          else if has_datetime \<and> has_pnp then
            (case load_entry l of
               None \<Rightarrow> None
             | Some entry \<Rightarrow> load_lines has_datetime has_pnp (Some (entries @ [entry])) vendors ls)
          else None)"

text \<open>
  A mapping display gives a later entry the place of an earlier one with the same key.
\<close>

definition load_module :: "ustr \<Rightarrow> (ustr \<rightharpoonup> vendor) option" where
  "load_module text_of_module =
     map_option mapping_of (load_lines False False None None (split_on 10 text_of_module))"

text \<open>A date that \<^verbatim>\<open>datetime.date\<close> can hold.\<close>

definition valid_date :: "date \<Rightarrow> bool" where
  "valid_date d \<longleftrightarrow> make_date (year d) (month d) (day d) = Inr d"

section \<open>Example inputs\<close>

text \<open>
  A document with a table whose body holds the given rows; two data rows and the records
  they stand for; a row of two cells; a data row with white space around the text of each
  cell, and its record; and a table that mixes rows of one, two, three and four cells.
\<close>

definition cell :: "string \<Rightarrow> element" where
  "cell s = Element (U ''td'') (Some (U s)) []"

definition empty_cell :: element where
  "empty_cell = Element (U ''td'') None []"

definition tr :: "element list \<Rightarrow> element" where
  "tr cells = Element (U ''tr'') None cells"

definition document :: "element list \<Rightarrow> element" where
  "document rows =
     Element (U ''html'') None
       [Element (U ''head'') None [],
        Element (U ''body'') None
          [Element (U ''table'') None
             [Element (U ''thead'') None
                [tr [Element (U ''th'') (Some (U ''Company'')) [],
                     Element (U ''th'') (Some (U ''PNP ID'')) [],
                     Element (U ''th'') (Some (U ''Approved On Date'')) []]],
              Element (U ''tbody'') None rows]]]"

definition acme_row :: element where
  "acme_row = tr [cell '' Acme Corp '', cell ''ACM'', cell ''01/15/2016'']"

definition beta_row :: element where
  "beta_row = tr [cell ''Beta Inc'', cell ''BET'', cell ''06/01/2020'']"

definition acme :: vendor where
  "acme = \<lparr>name = U ''Acme Corp'', pnp_id = U ''ACM'',
            approval_date = \<lparr>year = 2016, month = 1, day = 15\<rparr>\<rparr>"

definition beta :: vendor where
  "beta = \<lparr>name = U ''Beta Inc'', pnp_id = U ''BET'',
            approval_date = \<lparr>year = 2020, month = 6, day = 1\<rparr>\<rparr>"

definition spacer_row :: element where
  "spacer_row = tr [cell ''A'', cell ''B'']"

definition padded_row :: element where
  "padded_row = tr [cell ''  Gamma Ltd  '', cell '' GAM'', cell ''12/31/1999 '']"

definition gamma :: vendor where
  "gamma = \<lparr>name = U ''Gamma Ltd'', pnp_id = U ''GAM'',
             approval_date = \<lparr>year = 1999, month = 12, day = 31\<rparr>\<rparr>"

definition mixed_document :: element where
  "mixed_document =
     document [tr [cell ''only''], acme_row, spacer_row, padded_row, beta_row,
               tr [cell ''1'', cell ''2'', cell ''3'', cell ''4'']]"

text \<open>
  Rows that raise: an ID of two characters, of four, and with a character outside ASCII
  (the copyright sign); a date in another form; a cell without text. And a row whose date
  has a month and a day of one digit.
\<close>

definition short_id_row :: element where
  "short_id_row = tr [cell ''Short Id Ltd'', cell ''AB'', cell ''01/01/2016'']"

definition long_id_row :: element where
  "long_id_row = tr [cell ''Long Id Ltd'', cell ''ABCD'', cell ''01/01/2016'']"

definition non_ascii_id_row :: element where
  "non_ascii_id_row =
     tr [cell ''Copyright Ltd'', Element (U ''td'') (Some [65, 66, 169]) [], cell ''01/01/2016'']"

definition iso_date_row :: element where
  "iso_date_row = tr [cell ''Iso Date Ltd'', cell ''ISO'', cell ''2016-01-01'']"

definition short_date_row :: element where
  "short_date_row = tr [cell ''Short Date Ltd'', cell ''SHD'', cell ''1/5/2016'']"

definition no_text_row :: element where
  "no_text_row = tr [cell ''No Text Ltd'', empty_cell, cell ''01/01/2016'']"

text \<open>Rows with an ID of two characters and a second defect: no name, and a date in another form.\<close>

definition no_name_short_id_row :: element where
  "no_name_short_id_row = tr [empty_cell, cell ''AB'', cell ''01/01/2016'']"

definition short_id_iso_date_row :: element where
  "short_id_iso_date_row = tr [cell ''Both Bad Ltd'', cell ''AB'', cell ''2016-01-01'']"

section \<open>The date pattern\<close>

lemma month_text_cases:
  assumes "month_text ms"
  obtains a where "ms = [a]" "49 \<le> a" "a \<le> 57"
  | b where "ms = [48, b]" "49 \<le> b" "b \<le> 57"
  | b where "ms = [49, b]" "48 \<le> b" "b \<le> 50"
  using assms by (auto simp: month_text_def split: list.splits)

lemma day_text_cases:
  assumes "day_text nd ds"
  obtains a where "ds = [a]" "49 \<le> a" "a \<le> 57"
  | b where "ds = [51, b]" "48 \<le> b" "b \<le> 49"
  | a b where "ds = [a, b]" "a = 49 \<or> a = 50" "decimal nd b \<noteq> None"
  | a b where "ds = [a, b]" "a = 48 \<or> a = 32" "49 \<le> b" "b \<le> 57"
  using assms by (auto simp: day_text_def split: list.splits)

lemma decimal_47 [simp]: "decimal nd 47 = None"
  by (simp add: decimal_def)

lemma decimal_ascii: "48 \<le> c \<Longrightarrow> c \<le> 57 \<Longrightarrow> decimal nd c = Some (c - 48)"
  by (simp add: decimal_def)

lemma rmatch_m:
  assumes "month_text ms"
  shows "concat (map (\<lambda>r1. concat (map (F r1) (rmatch nd (Chr 47) r1))) (rmatch nd re_m (ms @ 47 # t)))
         = F (47 # t) t"
  using assms by (elim month_text_cases) (auto simp: re_m_def)

lemma rmatch_d:
  assumes "day_text nd ds"
  shows "concat (map (\<lambda>r3. concat (map (F r3) (rmatch nd (Chr 47) r3))) (rmatch nd re_d (ds @ 47 # t)))
         = F (47 # t) t"
  using assms by (elim day_text_cases) (auto simp: re_d_def decimal_def)

lemma rmatch_Y:
  assumes "year_text nd ys"
  shows "rmatch nd re_Y (ys @ t) = [t]"
proof -
  from assms obtain a b c d where "ys = [a, b, c, d]"
    by (auto simp: year_text_def length_Suc_conv numeral_eq_Suc)
  with assms show ?thesis by (simp add: re_Y_def year_text_def)
qed

lemma date_matches_shape:
  assumes "month_text ms" "day_text nd ds" "year_text nd ys"
  shows "date_matches nd (ms @ 47 # ds @ 47 # ys @ rest) = [(ms, ds, ys, rest)]"
proof -
  have "length ys = 4" using assms(3) by (simp add: year_text_def)
  then show ?thesis
    unfolding date_matches_def
    by (simp add: rmatch_m [OF assms(1)] rmatch_d [OF assms(2)] rmatch_Y [OF assms(3)] captured_def
          del: rmatch.simps)
qed


lemma split_on_nonempty [simp]: "split_on sep s \<noteq> []"
  by (induction s) (auto split: list.splits)

lemma split_on_no_sep: "sep \<notin> set a \<Longrightarrow> split_on sep a = [a]"
  by (induction a) auto

lemma split_on_append: "sep \<notin> set a \<Longrightarrow> split_on sep (a @ sep # r) = a # split_on sep r"
  by (induction a) auto

lemma split_on_single: "split_on sep s = [a] \<Longrightarrow> s = a"
  by (induction s arbitrary: a) (auto split: if_splits list.splits)

lemma split_on_cons:
  "split_on sep s = a # f # fs \<Longrightarrow> \<exists>r. s = a @ sep # r \<and> split_on sep r = f # fs"
proof (induction s arbitrary: a)
  case Nil
  then show ?case by simp
next
  case (Cons c cs)
  show ?case
  proof (cases "c = sep")
    case True
    with Cons.prems show ?thesis by simp
  next
    case False
    with Cons.prems obtain a' where a': "a = c # a'" "split_on sep cs = a' # f # fs"
      by (auto split: list.splits)
    from Cons.IH [OF a'(2)] a'(1) show ?thesis by auto
  qed
qed

lemma split_on_three:
  assumes "split_on sep s = [ms, ds, ys]"
  shows "s = ms @ sep # ds @ sep # ys"
proof -
  from split_on_cons [OF assms] obtain r where r: "s = ms @ sep # r" "split_on sep r = [ds, ys]"
    by blast
  from split_on_cons [OF r(2)] obtain r' where r': "r = ds @ sep # r'" "split_on sep r' = [ys]"
    by blast
  from split_on_single [OF r'(2)] r r' show ?thesis by simp
qed

lemma month_text_no_slash: "month_text ms \<Longrightarrow> 47 \<notin> set ms"
  by (erule month_text_cases) auto

lemma day_text_no_slash: "day_text nd ds \<Longrightarrow> 47 \<notin> set ds"
  by (erule day_text_cases) auto

lemma year_text_no_slash: "year_text nd ys \<Longrightarrow> 47 \<notin> set ys"
  by (auto simp: year_text_def)

lemma split_on_shape:
  assumes "month_text ms" "day_text nd ds" "year_text nd ys"
  shows "split_on 47 (ms @ 47 # ds @ 47 # ys) = [ms, ds, ys]"
  by (simp add: split_on_append split_on_no_sep month_text_no_slash [OF assms(1)]
      day_text_no_slash [OF assms(2)] year_text_no_slash [OF assms(3)])

text \<open>What the matcher returns has the shape.\<close>

lemma rmatch_Chr: "r \<in> set (rmatch nd (Chr c) s) \<Longrightarrow> s = c # r"
  by (auto split: list.splits if_splits)

lemma rmatch_m_captured:
  "r \<in> set (rmatch nd re_m s) \<Longrightarrow> month_text (captured s r) \<and> s = captured s r @ r"
  by (cases s; cases "tl s")
     (auto simp: re_m_def month_text_def captured_def split: if_splits)

lemma rmatch_d_captured:
  "r \<in> set (rmatch nd re_d s) \<Longrightarrow> day_text nd (captured s r) \<and> s = captured s r @ r"
  by (cases s; cases "tl s")
     (auto simp: re_d_def day_text_def captured_def split: if_splits)

lemma rmatch_Y_captured:
  "r \<in> set (rmatch nd re_Y s) \<Longrightarrow> year_text nd (captured s r) \<and> s = captured s r @ r"
  by (cases s; cases "tl s"; cases "tl (tl s)"; cases "tl (tl (tl s))")
     (auto simp: re_Y_def year_text_def captured_def split: if_splits)

lemma rmatch_m_shape: "r \<in> set (rmatch nd re_m s) \<Longrightarrow> \<exists>ms. month_text ms \<and> s = ms @ r"
  using rmatch_m_captured by blast

lemma rmatch_d_shape: "r \<in> set (rmatch nd re_d s) \<Longrightarrow> \<exists>ds. day_text nd ds \<and> s = ds @ r"
  using rmatch_d_captured by blast

lemma rmatch_Y_shape: "r \<in> set (rmatch nd re_Y s) \<Longrightarrow> \<exists>ys. year_text nd ys \<and> s = ys @ r"
  using rmatch_Y_captured by blast

lemma date_matches_mem:
  assumes "(gm, gd, gY, rest) \<in> set (date_matches nd s)"
  shows "\<exists>ms ds ys. month_text ms \<and> day_text nd ds \<and> year_text nd ys \<and>
           s = ms @ 47 # ds @ 47 # ys @ rest"
proof -
  from assms obtain r1 r2 r3 r4 where
    "r1 \<in> set (rmatch nd re_m s)" "r2 \<in> set (rmatch nd (Chr 47) r1)"
    "r3 \<in> set (rmatch nd re_d r2)" "r4 \<in> set (rmatch nd (Chr 47) r3)"
    "rest \<in> set (rmatch nd re_Y r4)"
    unfolding date_matches_def by (auto simp del: rmatch.simps)
  then show ?thesis
    by (metis rmatch_m_shape rmatch_d_shape rmatch_Y_shape rmatch_Chr)
qed

lemma date_matches_cases:
  "date_matches nd s = [] \<or>
   (\<exists>ms ds ys rest. month_text ms \<and> day_text nd ds \<and> year_text nd ys \<and>
      s = ms @ 47 # ds @ 47 # ys @ rest \<and> date_matches nd s = [(ms, ds, ys, rest)])"
proof (cases "date_matches nd s")
  case Nil
  then show ?thesis by simp
next
  case (Cons x xs)
  obtain gm gd gY rest where x: "x = (gm, gd, gY, rest)" by (cases x) auto
  with Cons have "(gm, gd, gY, rest) \<in> set (date_matches nd s)" by simp
  from date_matches_mem [OF this] obtain ms ds ys where
    sh: "month_text ms" "day_text nd ds" "year_text nd ys" "s = ms @ 47 # ds @ 47 # ys @ rest"
    by blast
  from date_matches_shape [OF sh(1-3), of rest] sh show ?thesis by blast
qed


lemma lenient_date_shape:
  assumes "lenient_date nd s = Some d"
  shows "\<exists>ms ds ys. month_text ms \<and> day_text nd ds \<and> year_text nd ys \<and>
           s = ms @ 47 # ds @ 47 # ys \<and> split_on 47 s = [ms, ds, ys]"
proof -
  from assms obtain ms ds ys where sp: "split_on 47 s = [ms, ds, ys]"
    and sh: "month_text ms \<and> day_text nd ds \<and> year_text nd ys"
    by (auto simp: lenient_date_def split: list.splits if_splits)
  from split_on_three [OF sp] sp sh show ?thesis by blast
qed

lemma strptime_shape:
  assumes "month_text ms" "day_text nd ds" "year_text nd ys"
  shows "strptime nd (ms @ 47 # ds @ 47 # ys) =
           (case (py_int nd ys, py_int nd ms, py_int nd ds) of
              (Some y, Some m, Some d) \<Rightarrow> make_date y m d
            | _ \<Rightarrow> Inl TimeDataMismatch)"
  using date_matches_shape [OF assms, of "[]"] by (simp add: strptime_def)

lemma make_date_error: "make_date y m d = Inl e \<Longrightarrow> e = DateOutOfRange"
  by (simp add: make_date_def split: if_splits)

theorem strptime_iff_lenient: "strptime nd s = Inr d \<longleftrightarrow> lenient_date nd s = Some d"
proof
  assume acc: "strptime nd s = Inr d"
  from date_matches_cases [of nd s] acc obtain ms ds ys rest where
    sh: "month_text ms" "day_text nd ds" "year_text nd ys"
    and s: "s = ms @ 47 # ds @ 47 # ys @ rest"
    and dm: "date_matches nd s = [(ms, ds, ys, rest)]"
    by (auto simp: strptime_def)
  from acc dm have "rest = []"
    by (auto simp: strptime_def split: if_splits)
  with s have s': "s = ms @ 47 # ds @ 47 # ys" by simp
  from acc show "lenient_date nd s = Some d"
    unfolding s' lenient_date_def strptime_shape [OF sh] split_on_shape [OF sh]
    using sh by (auto split: option.splits sum.splits)
next
  assume len: "lenient_date nd s = Some d"
  from lenient_date_shape [OF this] obtain ms ds ys where
    sh: "month_text ms" "day_text nd ds" "year_text nd ys"
    and s': "s = ms @ 47 # ds @ 47 # ys"
    by blast
  from len show "strptime nd s = Inr d"
    unfolding s' lenient_date_def strptime_shape [OF sh] split_on_shape [OF sh]
    using sh by (auto split: option.splits sum.splits)
qed

lemma strptime_error:
  "strptime nd s = Inl e \<Longrightarrow> e = TimeDataMismatch \<or> e = UnconvertedData \<or> e = DateOutOfRange"
  by (auto simp: strptime_def split: list.splits if_splits option.splits dest: make_date_error)


section \<open>Trimming\<close>

lemma drop_leading_space_dropWhile: "drop_leading_space t = dropWhile isspace t"
  by (induction t) auto

lemma drop_trailing_space_Nil: "drop_trailing_space t = [] \<longleftrightarrow> (\<forall>c \<in> set t. isspace c)"
  by (induction t) auto

lemma drop_trailing_space_rev: "drop_trailing_space t = rev (dropWhile isspace (rev t))"
proof (induction t)
  case Nil
  then show ?case by simp
next
  case (Cons c cs)
  show ?case
  proof (cases "\<forall>x \<in> set cs. isspace x")
    case True
    then have d: "dropWhile isspace (rev cs @ [c]) = dropWhile isspace [c]"
      by (intro dropWhile_append2) simp
    show ?thesis
      using True by (simp add: drop_trailing_space_Nil d)
  next
    case False
    then have "dropWhile isspace (rev cs @ [c]) = dropWhile isspace (rev cs) @ [c]"
      by (auto simp: dropWhile_append1)
    with False Cons.IH show ?thesis
      by (auto simp: drop_trailing_space_Nil)
  qed
qed

lemma strip_trim: "strip t = trim t"
  by (simp add: strip_def trim_def drop_leading_space_dropWhile drop_trailing_space_rev)

lemma trim_decompose:
  "\<exists>l r. t = l @ trim t @ r \<and> (\<forall>c \<in> set l. isspace c) \<and> (\<forall>c \<in> set r. isspace c)"
proof -
  define u where "u = dropWhile isspace t"
  have t: "t = takeWhile isspace t @ u"
    by (simp add: u_def)
  have u: "u = rev (dropWhile isspace (rev u)) @ rev (takeWhile isspace (rev u))"
    by (metis rev_append rev_rev_ident takeWhile_dropWhile_id)
  have tr: "trim t = rev (dropWhile isspace (rev u))"
    by (simp add: strip_trim [symmetric] strip_def u_def)
  have "t = takeWhile isspace t @ trim t @ rev (takeWhile isspace (rev u))"
    using t u tr by simp
  moreover have "\<forall>c \<in> set (takeWhile isspace t). isspace c"
    by (auto dest: set_takeWhileD)
  moreover have "\<forall>c \<in> set (rev (takeWhile isspace (rev u))). isspace c"
    by (auto dest: set_takeWhileD)
  ultimately show ?thesis by blast
qed

lemma trim_ends: "trim t = [] \<or> \<not> isspace (hd (trim t)) \<and> \<not> isspace (last (trim t))"
proof (cases "trim t = []")
  case True
  then show ?thesis by simp
next
  case False
  define u where "u = dropWhile isspace t"
  have tr: "trim t = rev (dropWhile isspace (rev u))"
    by (simp add: strip_trim [symmetric] strip_def u_def)
  with False have ne: "dropWhile isspace (rev u) \<noteq> []" by simp
  then have "\<not> isspace (hd (dropWhile isspace (rev u)))"
    by (rule hd_dropWhile)
  then have l: "\<not> isspace (last (trim t))"
    using ne by (simp add: tr last_rev)
  from ne have "u \<noteq> []" by auto
  then have hu: "\<not> isspace (hd u)"
    unfolding u_def by (rule hd_dropWhile)
  have "u = trim t @ rev (takeWhile isspace (rev u))"
    unfolding tr by (metis rev_append rev_rev_ident takeWhile_dropWhile_id)
  with False have "hd u = hd (trim t)"
    by (metis hd_append2)
  with hu l show ?thesis by simp
qed

lemma trim_unique:
  assumes "t = l @ s @ r" "\<forall>c \<in> set l. isspace c" "\<forall>c \<in> set r. isspace c"
    and "s = [] \<or> \<not> isspace (hd s) \<and> \<not> isspace (last s)"
  shows "trim t = s"
proof (cases "s = []")
  case True
  with assms have "\<forall>c \<in> set t. isspace c" by auto
  then have d0: "dropWhile isspace t = []" by (induction t) simp_all
  show ?thesis unfolding True by (simp add: strip_trim [symmetric] strip_def d0)
next
  case False
  with assms(4) have h: "\<not> isspace (hd s)" and e: "\<not> isspace (last s)" by simp_all
  have "dropWhile isspace (l @ s @ r) = dropWhile isspace (s @ r)"
    using assms(2) by (intro dropWhile_append2) simp
  then have "dropWhile isspace t = dropWhile isspace (s @ r)"
    using assms(1) by simp
  also have "\<dots> = s @ r"
    using False h by (cases s) simp_all
  finally have d: "dropWhile isspace t = s @ r" .
  have "dropWhile isspace (rev r @ rev s) = dropWhile isspace (rev s)"
    using assms(3) by (intro dropWhile_append2) simp
  also have "\<dots> = rev s"
    using False e by (cases "rev s") (auto simp: last_rev [symmetric] hd_rev)
  finally show ?thesis
    by (simp add: strip_trim [symmetric] strip_def d)
qed

lemma trim_iff:
  "trim t = s \<longleftrightarrow>
     (\<exists>l r. t = l @ s @ r \<and> (\<forall>c \<in> set l. isspace c) \<and> (\<forall>c \<in> set r. isspace c) \<and>
        (s = [] \<or> \<not> isspace (hd s) \<and> \<not> isspace (last s)))"
  using trim_decompose [of t] trim_ends [of t] trim_unique by blast

lemma row_texts_cells:
  assumes "row_texts row = Some (t1, t2, t3)"
  shows "row_cells row = Some (trim t1, trim t2, trim t3)"
proof -
  from assms have "map elem_text (findall_td row) = [Some t1, Some t2, Some t3]"
    unfolding row_texts_def by (auto elim!: three_texts.elims)
  then show ?thesis
    by (simp add: row_cells_def strip_trim)
qed

section \<open>Valid dates and the body of the loop\<close>

lemma stripped_cells_Some:
  assumes "stripped_cells (map elem_text tds) = Some (n, i, d)"
  obtains td1 td2 td3 t1 t2 t3 where "tds = [td1, td2, td3]"
    "elem_text td1 = Some t1" "elem_text td2 = Some t2" "elem_text td3 = Some t3"
    "n = strip t1" "i = strip t2" "d = strip t3"
proof -
  from assms obtain t1 t2 t3 where
    "map elem_text tds = [Some t1, Some t2, Some t3]" "n = strip t1" "i = strip t2" "d = strip t3"
    by (auto elim!: stripped_cells.elims)
  then show ?thesis
    using that by (auto simp: map_eq_Cons_conv)
qed

lemma ascii_digit_not_space: "ascii_digit c \<Longrightarrow> \<not> isspace c"
  by (auto simp: ascii_digit_def isspace_def)

lemma dropWhile_hd: "xs \<noteq> [] \<Longrightarrow> \<not> P (hd xs) \<Longrightarrow> dropWhile P xs = xs"
  by (cases xs) auto

lemma strip_id: "s \<noteq> [] \<Longrightarrow> \<not> isspace (hd s) \<Longrightarrow> \<not> isspace (last s) \<Longrightarrow> strip s = s"
  by (simp add: strip_def dropWhile_hd hd_rev)

lemma digit_value_range: "ascii_digit c \<Longrightarrow> 0 \<le> digit_value c \<and> digit_value c \<le> 9"
  by (auto simp: ascii_digit_def digit_value_def)

lemma decimal_ascii_digit: "ascii_digit c \<Longrightarrow> decimal nd c = Some (c - 48)"
  by (simp add: ascii_digit_def decimal_def)

lemma py_int_2:
  "ascii_digit a \<Longrightarrow> ascii_digit b \<Longrightarrow> py_int nd [a, b] = Some (10 * digit_value a + digit_value b)"
  by (simp add: py_int_def strip_id ascii_digit_not_space decimal_ascii_digit digit_value_def)
     (simp add: ascii_digit_def)

lemma py_int_4:
  "ascii_digit a \<Longrightarrow> ascii_digit b \<Longrightarrow> ascii_digit c \<Longrightarrow> ascii_digit d \<Longrightarrow>
   py_int nd [a, b, c, d] =
     Some (1000 * digit_value a + 100 * digit_value b + 10 * digit_value c + digit_value d)"
  by (simp add: py_int_def strip_id ascii_digit_not_space decimal_ascii_digit digit_value_def)
     (simp add: ascii_digit_def)

lemma days_in_month_le: "days_in_month y m \<le> 31"
  by (simp add: days_in_month_def)

lemma month_text_2:
  assumes "ascii_digit a" "ascii_digit b" "1 \<le> 10 * digit_value a + digit_value b"
    "10 * digit_value a + digit_value b \<le> 12"
  shows "month_text [a, b]"
  using assms unfolding month_text_def ascii_digit_def digit_value_def by simp linarith

lemma day_text_2:
  assumes "ascii_digit a" "ascii_digit b" "1 \<le> 10 * digit_value a + digit_value b"
    "10 * digit_value a + digit_value b \<le> 31"
  shows "day_text nd [a, b]"
  using assms unfolding day_text_def ascii_digit_def digit_value_def decimal_def by simp linarith

lemma mm_dd_yyyy_strptime:
  assumes "mm_dd_yyyy s = Some dt"
  shows "strptime nd s = Inr dt"
proof -
  from assms obtain m1 m2 s1 d1 d2 s2 y1 y2 y3 y4 where
    s: "s = [m1, m2, s1, d1, d2, s2, y1, y2, y3, y4]"
    by (cases s rule: mm_dd_yyyy.cases) auto
  define y where "y = 1000 * digit_value y1 + 100 * digit_value y2 + 10 * digit_value y3 + digit_value y4"
  define m where "m = 10 * digit_value m1 + digit_value m2"
  define d where "d = 10 * digit_value d1 + digit_value d2"
  from assms have ok: "s1 = 47" "s2 = 47"
    "ascii_digit m1" "ascii_digit m2" "ascii_digit d1" "ascii_digit d2"
    "ascii_digit y1" "ascii_digit y2" "ascii_digit y3" "ascii_digit y4"
    "1 \<le> y" "1 \<le> m" "m \<le> 12" "1 \<le> d" "d \<le> days_in_month y m"
    and dt: "dt = \<lparr>year = y, month = m, day = d\<rparr>"
    unfolding s y_def m_def d_def by (auto simp: Let_def split: if_splits)
  have mt: "month_text [m1, m2]"
    using ok month_text_2 unfolding m_def by blast
  have "d \<le> 31" using ok(15) days_in_month_le [of y m] by linarith
  then have dtx: "day_text nd [d1, d2]"
    using ok day_text_2 unfolding d_def by blast
  have yt: "year_text nd [y1, y2, y3, y4]"
    using ok by (simp add: year_text_def decimal_ascii_digit)
  have ylim: "y \<le> 9999"
    using digit_value_range [OF ok(7)] digit_value_range [OF ok(8)]
      digit_value_range [OF ok(9)] digit_value_range [OF ok(10)]
    unfolding y_def by linarith
  have "s = [m1, m2] @ 47 # [d1, d2] @ 47 # [y1, y2, y3, y4]"
    using s ok by simp
  then have "strptime nd s = make_date y m d"
    unfolding y_def m_def d_def
    by (simp only: strptime_shape [OF mt dtx yt]) (simp add: py_int_2 py_int_4 ok)
  also have "\<dots> = Inr dt"
    using ok ylim dt by (simp add: make_date_def)
  finally show ?thesis .
qed

section \<open>The loop over the rows\<close>

lemma parse_rows_append:
  "parse_rows nd (xs @ ys) =
     (case parse_rows nd xs of
        (vs, None) \<Rightarrow> (case parse_rows nd ys of (ws, r) \<Rightarrow> (vs @ ws, r))
      | (vs, Some e) \<Rightarrow> (vs, Some e))"
  by (induction xs) (auto split: sum.splits option.splits prod.splits)

lemma parse_row_skip: "\<not> data_row row \<Longrightarrow> parse_row nd row = Inr None"
  by (auto simp: parse_row_def data_row_def split: list.splits)

lemma parse_rows_filter: "parse_rows nd rows = parse_rows nd (filter data_row rows)"
  by (induction rows) (auto simp: parse_row_skip split: sum.splits option.splits)

lemma parse_row_cells:
  assumes "row_cells row = Some (n, i, d)"
  shows "parse_row nd row =
           (case strptime nd d of
              Inl e \<Rightarrow> Inl e
            | Inr dt \<Rightarrow>
                if \<exists>c \<in> set i. 128 \<le> c then Inl UnicodeEncodeError
                else if length i \<noteq> 3 then Inl PnpIdLength
                else Inr (Some \<lparr>name = n, pnp_id = i, approval_date = dt\<rparr>))"
proof -
  from assms obtain td1 td2 td3 t1 t2 t3 where
    tds: "findall_td row = [td1, td2, td3]"
    and tx: "elem_text td1 = Some t1" "elem_text td2 = Some t2" "elem_text td3 = Some t3"
    and eq: "n = strip t1" "i = strip t2" "d = strip t3"
    unfolding row_cells_def by (rule stripped_cells_Some)
  show ?thesis
    by (auto simp: parse_row_def tds tx eq encode_ascii_def Let_def not_le [symmetric] split: sum.splits)
qed

lemma parse_row_no_text:
  assumes "data_row row" "\<exists>c \<in> set (findall_td row). elem_text c = None"
  shows "parse_row nd row = Inl AttributeError"
proof -
  from assms(1) obtain td1 td2 td3 where tds: "findall_td row = [td1, td2, td3]"
    by (auto simp: data_row_def length_Suc_conv numeral_3_eq_3)
  with assms(2) show ?thesis
    by (auto simp: parse_row_def split: option.splits)
qed

lemma parse_rows_raise:
  assumes "snd (parse_rows nd pre) = None" "parse_row nd row = Inl e"
  shows "parse_rows nd (pre @ row # post) = (fst (parse_rows nd pre), Some e)"
  using assms by (cases "parse_rows nd pre") (simp add: parse_rows_append)

lemma parse_row_well_formed:
  assumes "well_formed_row row"
  shows "\<exists>v. parse_row nd row = Inr (Some v) \<and> row_matches row v"
proof -
  from assms obtain t1 t2 t3 dt where
    rt: "row_texts row = Some (t1, t2, t3)"
    and id: "valid_id (trim t2)" and dt: "mm_dd_yyyy (trim t3) = Some dt"
    by (auto simp: well_formed_row_def split: option.splits)
  from id have "\<not> (\<exists>c \<in> set (trim t2). 128 \<le> c)" "length (trim t2) = 3"
    by (auto simp: valid_id_def)
  then have "parse_row nd row =
          Inr (Some \<lparr>name = trim t1, pnp_id = trim t2, approval_date = dt\<rparr>)"
    by (simp add: parse_row_cells [OF row_texts_cells [OF rt]] mm_dd_yyyy_strptime [OF dt])
  moreover have "row_matches row \<lparr>name = trim t1, pnp_id = trim t2, approval_date = dt\<rparr>"
    by (simp add: row_matches_def rt dt)
  ultimately show ?thesis by blast
qed

lemma parse_rows_well_formed:
  assumes "\<forall>row \<in> set rows. data_row row \<longrightarrow> well_formed_row row"
  shows "\<exists>vs. parse_rows nd rows = (vs, None) \<and> list_all2 row_matches (filter data_row rows) vs"
  using assms
proof (induction rows)
  case Nil
  then show ?case by simp
next
  case (Cons row rows)
  then obtain vs where vs: "parse_rows nd rows = (vs, None)"
    "list_all2 row_matches (filter data_row rows) vs" by auto
  show ?case
  proof (cases "data_row row")
    case True
    with Cons.prems have "well_formed_row row" by simp
    from parse_row_well_formed [OF this] obtain v where
      "parse_row nd row = Inr (Some v)" "row_matches row v" by blast
    with vs True show ?thesis by simp
  next
    case False
    with vs show ?thesis by (simp add: parse_row_skip)
  qed
qed

section \<open>The example rows, parsed\<close>

lemmas example_defs =
  document_def tr_def cell_def empty_cell_def acme_row_def beta_row_def spacer_row_def
  padded_row_def mixed_document_def

lemmas findall_defs = findall_rows_def findall_td_def descendants_tagged_def children_tagged_def

lemma row_cells_acme: "row_cells acme_row = Some (U ''Acme Corp'', U ''ACM'', U ''01/15/2016'')"
  by (simp add: row_cells_def findall_defs example_defs U_def strip_def isspace_def)

lemma row_cells_beta: "row_cells beta_row = Some (U ''Beta Inc'', U ''BET'', U ''06/01/2020'')"
  by (simp add: row_cells_def findall_defs example_defs U_def strip_def isspace_def)

lemma date_acme: "mm_dd_yyyy (U ''01/15/2016'') = Some \<lparr>year = 2016, month = 1, day = 15\<rparr>"
  by (simp add: U_def ascii_digit_def digit_value_def days_in_month_def)

lemma date_beta: "mm_dd_yyyy (U ''06/01/2020'') = Some \<lparr>year = 2020, month = 6, day = 1\<rparr>"
  by (simp add: U_def ascii_digit_def digit_value_def days_in_month_def)

lemma parse_row_acme: "parse_row nd acme_row = Inr (Some acme)"
  by (simp add: parse_row_cells [OF row_cells_acme] mm_dd_yyyy_strptime [OF date_acme] acme_def)
     (simp add: U_def)

lemma parse_row_beta: "parse_row nd beta_row = Inr (Some beta)"
  by (simp add: parse_row_cells [OF row_cells_beta] mm_dd_yyyy_strptime [OF date_beta] beta_def)
     (simp add: U_def)

lemma findall_rows_mixed:
  "findall_rows mixed_document =
     [tr [cell ''only''], acme_row, spacer_row, padded_row, beta_row,
      tr [cell ''1'', cell ''2'', cell ''3'', cell ''4'']]"
  by (simp add: findall_defs example_defs U_def)

lemma data_row_examples:
  "data_row acme_row" "data_row beta_row" "data_row padded_row" "\<not> data_row spacer_row"
  "\<not> data_row (tr [cell ''only''])" "\<not> data_row (tr [cell ''1'', cell ''2'', cell ''3'', cell ''4''])"
  by (simp_all add: data_row_def findall_defs example_defs U_def)

lemma row_texts_examples:
  "row_texts acme_row = Some (U '' Acme Corp '', U ''ACM'', U ''01/15/2016'')"
  "row_texts padded_row = Some (U ''  Gamma Ltd  '', U '' GAM'', U ''12/31/1999 '')"
  "row_texts beta_row = Some (U ''Beta Inc'', U ''BET'', U ''06/01/2020'')"
  by (simp_all add: row_texts_def findall_defs example_defs U_def)

lemma trim_examples:
  "trim (U '' Acme Corp '') = U ''Acme Corp''" "trim (U ''ACM'') = U ''ACM''"
  "trim (U ''01/15/2016'') = U ''01/15/2016''"
  "trim (U ''  Gamma Ltd  '') = U ''Gamma Ltd''" "trim (U '' GAM'') = U ''GAM''"
  "trim (U ''12/31/1999 '') = U ''12/31/1999''"
  "trim (U ''Beta Inc'') = U ''Beta Inc''" "trim (U ''BET'') = U ''BET''"
  "trim (U ''06/01/2020'') = U ''06/01/2020''"
  by (simp_all add: trim_def isspace_def U_def)

lemma date_gamma: "mm_dd_yyyy (U ''12/31/1999'') = Some \<lparr>year = 1999, month = 12, day = 31\<rparr>"
  by (simp add: U_def ascii_digit_def digit_value_def days_in_month_def)

lemma valid_id_examples: "valid_id (U ''ACM'')" "valid_id (U ''GAM'')" "valid_id (U ''BET'')"
  by (simp_all add: valid_id_def U_def)

lemma well_formed_examples:
  "well_formed_row acme_row" "well_formed_row padded_row" "well_formed_row beta_row"
  by (simp_all add: well_formed_row_def row_texts_examples trim_examples valid_id_examples
      date_acme date_gamma date_beta)

lemma row_matches_record:
  assumes "row_matches row v" "row_texts row = Some (t1, t2, t3)" "mm_dd_yyyy (trim t3) = Some dt"
  shows "v = \<lparr>name = trim t1, pnp_id = trim t2, approval_date = dt\<rparr>"
  using assms by (cases v) (simp add: row_matches_def)

section \<open>The parser on well-formed tables\<close>

text \<open>
  Claim C1. When every data row of the table (every row with exactly three cells) is well
  formed, that is, its three cells have text, the trimmed second is a valid ID (three
  ASCII bytes) and the trimmed third a valid date in the form \<^verbatim>\<open>MM/DD/YYYY\<close>, the parser
  ends without raising and yields exactly one record per data row, in the order of the
  rows, each with the trimmed text of the first two cells as its name and its ID and with
  the date of the third cell, decomposed into year, month and day. Trimming, the valid ID
  and the valid date are the notions \<open>trim\<close>, \<open>valid_id\<close> and \<open>mm_dd_yyyy\<close> of the
  specification, none of which is the parser's own.
\<close>

theorem parse_spreadsheet_well_formed:
  assumes "\<forall>row \<in> set (findall_rows root). data_row row \<longrightarrow> well_formed_row row"
  shows "\<exists>vs. parse_spreadsheet nd (Inr root) = (vs, None) \<and>
           list_all2 row_matches (filter data_row (findall_rows root)) vs"
  using parse_rows_well_formed [OF assms] by (simp add: parse_spreadsheet_def)

theorem parse_spreadsheet_well_formed_witness:
  "filter data_row (findall_rows mixed_document) = [acme_row, padded_row, beta_row] \<and>
   row_texts acme_row = Some (U '' Acme Corp '', U ''ACM'', U ''01/15/2016'') \<and>
   row_texts padded_row = Some (U ''  Gamma Ltd  '', U '' GAM'', U ''12/31/1999 '') \<and>
   row_texts beta_row = Some (U ''Beta Inc'', U ''BET'', U ''06/01/2020'') \<and>
   well_formed_row acme_row \<and> well_formed_row padded_row \<and> well_formed_row beta_row \<and>
   parse_spreadsheet ascii_only (Inr mixed_document) =
     ([\<lparr>name = U ''Acme Corp'', pnp_id = U ''ACM'',
         approval_date = \<lparr>year = 2016, month = 1, day = 15\<rparr>\<rparr>,
       \<lparr>name = U ''Gamma Ltd'', pnp_id = U ''GAM'',
         approval_date = \<lparr>year = 1999, month = 12, day = 31\<rparr>\<rparr>,
       \<lparr>name = U ''Beta Inc'', pnp_id = U ''BET'',
         approval_date = \<lparr>year = 2020, month = 6, day = 1\<rparr>\<rparr>], None)"
proof -
  have h: "\<forall>row \<in> set (findall_rows mixed_document). data_row row \<longrightarrow> well_formed_row row"
    by (simp add: findall_rows_mixed data_row_examples well_formed_examples)
  have f: "filter data_row (findall_rows mixed_document) = [acme_row, padded_row, beta_row]"
    by (simp add: findall_rows_mixed data_row_examples)
  from parse_spreadsheet_well_formed [OF h, of ascii_only] obtain vs where
    p: "parse_spreadsheet ascii_only (Inr mixed_document) = (vs, None)"
    and m: "list_all2 row_matches [acme_row, padded_row, beta_row] vs"
    unfolding f by blast
  from m obtain v1 v2 v3 where vs: "vs = [v1, v2, v3]"
    and ms: "row_matches acme_row v1" "row_matches padded_row v2" "row_matches beta_row v3"
    by (auto simp: list_all2_Cons1)
  have "v1 = \<lparr>name = U ''Acme Corp'', pnp_id = U ''ACM'',
               approval_date = \<lparr>year = 2016, month = 1, day = 15\<rparr>\<rparr>"
    using row_matches_record [OF ms(1) row_texts_examples(1)]
    by (simp add: trim_examples date_acme)
  moreover have "v2 = \<lparr>name = U ''Gamma Ltd'', pnp_id = U ''GAM'',
               approval_date = \<lparr>year = 1999, month = 12, day = 31\<rparr>\<rparr>"
    using row_matches_record [OF ms(2) row_texts_examples(2)]
    by (simp add: trim_examples date_gamma)
  moreover have "v3 = \<lparr>name = U ''Beta Inc'', pnp_id = U ''BET'',
               approval_date = \<lparr>year = 2020, month = 6, day = 1\<rparr>\<rparr>"
    using row_matches_record [OF ms(3) row_texts_examples(3)]
    by (simp add: trim_examples date_beta)
  ultimately show ?thesis
    using p vs f row_texts_examples well_formed_examples by simp
qed

section \<open>The rows that raise\<close>

lemmas row_defs = short_id_row_def long_id_row_def non_ascii_id_row_def iso_date_row_def
  short_date_row_def no_text_row_def

lemma findall_rows_examples:
  "findall_rows (document [acme_row, short_id_row, beta_row]) = [acme_row] @ short_id_row # [beta_row]"
  "findall_rows (document [acme_row, long_id_row, beta_row]) = [acme_row] @ long_id_row # [beta_row]"
  "findall_rows (document [acme_row, non_ascii_id_row, beta_row]) =
     [acme_row] @ non_ascii_id_row # [beta_row]"
  "findall_rows (document [acme_row, iso_date_row, beta_row]) = [acme_row] @ iso_date_row # [beta_row]"
  "findall_rows (document [acme_row, no_text_row, beta_row]) = [acme_row] @ no_text_row # [beta_row]"
  "findall_rows (document [acme_row, spacer_row, beta_row]) = [acme_row] @ spacer_row # [beta_row]"
  "findall_rows (document [short_date_row]) = [short_date_row]"
  by (simp_all add: findall_defs example_defs row_defs U_def)

lemma row_cells_examples:
  "row_cells short_id_row = Some (U ''Short Id Ltd'', U ''AB'', U ''01/01/2016'')"
  "row_cells long_id_row = Some (U ''Long Id Ltd'', U ''ABCD'', U ''01/01/2016'')"
  "row_cells non_ascii_id_row = Some (U ''Copyright Ltd'', [65, 66, 169], U ''01/01/2016'')"
  "row_cells iso_date_row = Some (U ''Iso Date Ltd'', U ''ISO'', U ''2016-01-01'')"
  "row_cells short_date_row = Some (U ''Short Date Ltd'', U ''SHD'', U ''1/5/2016'')"
  by (simp_all add: row_cells_def findall_defs example_defs row_defs U_def strip_def isspace_def)

lemma valid_date_text: "mm_dd_yyyy (U ''01/01/2016'') = Some \<lparr>year = 2016, month = 1, day = 1\<rparr>"
  by (simp add: U_def ascii_digit_def digit_value_def days_in_month_def)

lemma strptime_valid_example:
  "strptime nd (U ''01/01/2016'') = Inr \<lparr>year = 2016, month = 1, day = 1\<rparr>"
  by (rule mm_dd_yyyy_strptime [OF valid_date_text])

lemma parse_rows_acme: "snd (parse_rows nd [acme_row]) = None" "fst (parse_rows nd [acme_row]) = [acme]"
  by (simp_all add: parse_row_acme)

section \<open>Invalid IDs\<close>

lemma row_texts_raising:
  "row_texts short_id_row = Some (U ''Short Id Ltd'', U ''AB'', U ''01/01/2016'')"
  "row_texts long_id_row = Some (U ''Long Id Ltd'', U ''ABCD'', U ''01/01/2016'')"
  "row_texts non_ascii_id_row = Some (U ''Copyright Ltd'', [65, 66, 169], U ''01/01/2016'')"
  "row_texts short_id_iso_date_row = Some (U ''Both Bad Ltd'', U ''AB'', U ''2016-01-01'')"
  by (simp_all add: row_texts_def findall_defs example_defs row_defs short_id_iso_date_row_def U_def)

lemma trim_raising:
  "trim (U ''AB'') = U ''AB''" "trim (U ''ABCD'') = U ''ABCD''" "trim [65, 66, 169] = [65, 66, 169]"
  "trim (U ''01/01/2016'') = U ''01/01/2016''" "trim (U ''2016-01-01'') = U ''2016-01-01''"
  by (simp_all add: trim_def isspace_def U_def)

lemma invalid_id_examples:
  "\<not> valid_id (U ''AB'')" "\<not> valid_id (U ''ABCD'')" "\<not> valid_id [65, 66, 169]"
  by (simp_all add: valid_id_def U_def)

lemma findall_rows_single:
  "findall_rows (document [no_name_short_id_row]) = [no_name_short_id_row]"
  "findall_rows (document [short_id_iso_date_row]) = [short_id_iso_date_row]"
  by (simp_all add: findall_defs example_defs no_name_short_id_row_def short_id_iso_date_row_def U_def)

lemma strptime_iso_example: "strptime nd (U ''2016-01-01'') = Inl TimeDataMismatch"
  by (simp add: strptime_def date_matches_def re_m_def U_def)

text \<open>
  Claim C2 as stated fails. The row of an ID of two characters raises, but not always the
  failure of the ID check: when its first cell has no text it raises \<^verbatim>\<open>AttributeError\<close>,
  which is no \<^verbatim>\<open>ValueError\<close>, and when its date is in another form it raises the parse
  failure of the date, which is parsed before the ID is checked.
\<close>

theorem invalid_id_other_error_counterexample:
  "\<not> valid_id (trim (U ''AB'')) \<and>
   map elem_text (findall_td no_name_short_id_row) = [None, Some (U ''AB''), Some (U ''01/01/2016'')] \<and>
   parse_spreadsheet ascii_only (Inr (document [no_name_short_id_row])) = ([], Some AttributeError) \<and>
   \<not> is_ValueError AttributeError \<and>
   row_texts short_id_iso_date_row = Some (U ''Both Bad Ltd'', U ''AB'', U ''2016-01-01'') \<and>
   parse_spreadsheet ascii_only (Inr (document [short_id_iso_date_row])) = ([], Some TimeDataMismatch)"
proof -
  have f: "findall_td no_name_short_id_row = [empty_cell, cell ''AB'', cell ''01/01/2016'']"
    by (simp add: findall_defs example_defs no_name_short_id_row_def U_def)
  have "parse_row ascii_only no_name_short_id_row = Inl AttributeError"
    by (simp add: parse_row_def f empty_cell_def cell_def)
  then have 1: "parse_spreadsheet ascii_only (Inr (document [no_name_short_id_row])) =
      ([], Some AttributeError)"
    by (simp add: parse_spreadsheet_def findall_rows_single)
  have "parse_row ascii_only short_id_iso_date_row = Inl TimeDataMismatch"
    by (simp add: parse_row_cells [OF row_texts_cells [OF row_texts_raising(4)]] trim_raising
        strptime_iso_example)
  then have 2: "parse_spreadsheet ascii_only (Inr (document [short_id_iso_date_row])) =
      ([], Some TimeDataMismatch)"
    by (simp add: parse_spreadsheet_def findall_rows_single)
  show ?thesis
    using 1 2 by (simp add: f empty_cell_def cell_def trim_raising invalid_id_examples row_texts_raising)
qed

text \<open>
  Claim C2, amended. When the iteration reaches a row of three cells, each with text,
  whose trimmed ID does not encode to exactly three ASCII bytes, the parser raises a
  \<^verbatim>\<open>ValueError\<close> at that row: what it yields is what the rows before yielded, whatever rows
  follow. The error is the failure of the ID check (\<^verbatim>\<open>UnicodeEncodeError\<close> for a character
  outside ASCII, the length error otherwise) when the trimmed date of the row is one the
  date pattern accepts, and the parse failure of the date when it is not.
\<close>

theorem invalid_id_aborts:
  assumes "findall_rows root = pre @ row # post"
    and "snd (parse_rows nd pre) = None"
    and "row_texts row = Some (t1, t2, t3)"
    and "\<not> valid_id (trim t2)"
  shows "\<exists>e. parse_spreadsheet nd (Inr root) = (fst (parse_rows nd pre), Some e) \<and>
           is_ValueError e \<and>
           (if lenient_date nd (trim t3) = None then date_error e
            else e = (if \<exists>c \<in> set (trim t2). 128 \<le> c then UnicodeEncodeError else PnpIdLength))"
proof (cases "strptime nd (trim t3)")
  case (Inl e)
  then have pr: "parse_row nd row = Inl e"
    by (simp add: parse_row_cells [OF row_texts_cells [OF assms(3)]])
  have "lenient_date nd (trim t3) = None"
    using Inl by (cases "lenient_date nd (trim t3)") (auto simp: strptime_iff_lenient [symmetric])
  then show ?thesis
    using parse_rows_raise [OF assms(2) pr, of post] strptime_error [OF Inl]
    by (auto simp: parse_spreadsheet_def assms(1) date_error_def)
next
  case (Inr dt)
  define e where "e = (if \<exists>c \<in> set (trim t2). 128 \<le> c then UnicodeEncodeError else PnpIdLength)"
  from Inr assms(4) have pr: "parse_row nd row = Inl e"
    unfolding e_def
    by (auto simp: parse_row_cells [OF row_texts_cells [OF assms(3)]] valid_id_def not_less)
  have "lenient_date nd (trim t3) \<noteq> None"
    using Inr by (simp add: strptime_iff_lenient)
  then show ?thesis
    using parse_rows_raise [OF assms(2) pr, of post]
    by (auto simp: parse_spreadsheet_def assms(1) e_def)
qed

theorem invalid_id_aborts_witness:
  "\<not> valid_id (trim (U ''AB'')) \<and> \<not> valid_id (trim (U ''ABCD'')) \<and> \<not> valid_id (trim [65, 66, 169]) \<and>
   parse_spreadsheet ascii_only (Inr (document [acme_row, short_id_row, beta_row])) =
     ([acme], Some PnpIdLength) \<and>
   parse_spreadsheet ascii_only (Inr (document [acme_row, long_id_row, beta_row])) =
     ([acme], Some PnpIdLength) \<and>
   parse_spreadsheet ascii_only (Inr (document [acme_row, non_ascii_id_row, beta_row])) =
     ([acme], Some UnicodeEncodeError)"
proof -
  have v: "\<not> valid_id (trim (U ''AB''))" "\<not> valid_id (trim (U ''ABCD''))"
    "\<not> valid_id (trim [65, 66, 169])"
    by (simp_all add: trim_raising invalid_id_examples)
  have a: "\<not> (\<exists>c \<in> set (U ''AB''). 128 \<le> c)" "\<not> (\<exists>c \<in> set (U ''ABCD''). 128 \<le> c)"
    "\<exists>c \<in> set [65, 66, 169::nat]. 128 \<le> c"
    by (simp_all add: U_def)
  have l: "lenient_date ascii_only (U ''01/01/2016'') \<noteq> None"
    using strptime_valid_example [of ascii_only] by (simp add: strptime_iff_lenient)
  have "parse_spreadsheet ascii_only (Inr (document [acme_row, short_id_row, beta_row])) =
          ([acme], Some PnpIdLength)"
    using invalid_id_aborts [OF findall_rows_examples(1) parse_rows_acme(1) row_texts_raising(1) v(1),
        of ascii_only] a(1) l
    by (auto simp: parse_row_acme trim_raising)
  moreover have "parse_spreadsheet ascii_only (Inr (document [acme_row, long_id_row, beta_row])) =
          ([acme], Some PnpIdLength)"
    using invalid_id_aborts [OF findall_rows_examples(2) parse_rows_acme(1) row_texts_raising(2) v(2),
        of ascii_only] a(2) l
    by (auto simp: parse_row_acme trim_raising)
  moreover have "parse_spreadsheet ascii_only (Inr (document [acme_row, non_ascii_id_row, beta_row])) =
          ([acme], Some UnicodeEncodeError)"
    using invalid_id_aborts [OF findall_rows_examples(3) parse_rows_acme(1) row_texts_raising(3) v(3),
        of ascii_only] a(3) l
    by (auto simp: parse_row_acme trim_raising)
  ultimately show ?thesis using v by blast
qed

section \<open>Dates that do not conform\<close>

lemma lenient_examples:
  "lenient_date nd (U ''2016-01-01'') = None"
  "lenient_date nd (U ''1/5/2016'') = Some \<lparr>year = 2016, month = 1, day = 5\<rparr>"
  "lenient_date nd (U ''01/ 5/2016'') = Some \<lparr>year = 2016, month = 1, day = 5\<rparr>"
  by (simp_all add: lenient_date_def U_def month_text_def day_text_def year_text_def decimal_def
      py_int_def strip_def isspace_def make_date_def days_in_month_def is_leap_def)

lemma strict_examples:
  "mm_dd_yyyy (U ''2016-01-01'') = None" "mm_dd_yyyy (U ''1/5/2016'') = None"
  by (simp_all add: U_def)

text \<open>
  Claim C3 as stated fails: the one-digit month and day of \<^verbatim>\<open>1/5/2016\<close> are not in the
  two-digit form, and the row is parsed to a record all the same.
\<close>

theorem two_digit_date_counterexample:
  "mm_dd_yyyy (U ''1/5/2016'') = None \<and>
   row_cells short_date_row = Some (U ''Short Date Ltd'', U ''SHD'', U ''1/5/2016'') \<and>
   parse_spreadsheet ascii_only (Inr (document [short_date_row])) =
     ([\<lparr>name = U ''Short Date Ltd'', pnp_id = U ''SHD'',
        approval_date = \<lparr>year = 2016, month = 1, day = 5\<rparr>\<rparr>], None)"
proof -
  have "strptime ascii_only (U ''1/5/2016'') = Inr \<lparr>year = 2016, month = 1, day = 5\<rparr>"
    by (simp add: strptime_iff_lenient lenient_examples)
  then have "parse_row ascii_only short_date_row =
      Inr (Some \<lparr>name = U ''Short Date Ltd'', pnp_id = U ''SHD'',
                  approval_date = \<lparr>year = 2016, month = 1, day = 5\<rparr>\<rparr>)"
    by (simp add: parse_row_cells [OF row_cells_examples(5)]) (simp add: U_def)
  then show ?thesis
    by (simp add: parse_spreadsheet_def findall_rows_examples strict_examples row_cells_examples)
qed

text \<open>
  Claim C3, amended. When the iteration reaches a row with three cells of text whose
  trimmed date is not a month field, a day field and a year field with a slash between them
  (a month from 1 to 12 in one or two digits; a day from 1 to 31 in one or two digits, a
  one-digit day also after a space; a year in four digits) that name a date of the calendar
  from year 1 on, the parser raises one of the \<^verbatim>\<open>ValueError\<close>s of \<^verbatim>\<open>strptime\<close> at that row:
  what it yields is what the rows before yielded, whatever rows follow.
\<close>

theorem nonconforming_date_aborts:
  assumes "findall_rows root = pre @ row # post"
    and "snd (parse_rows nd pre) = None"
    and "row_cells row = Some (n, i, d)"
    and "lenient_date nd d = None"
  shows "\<exists>e. parse_spreadsheet nd (Inr root) = (fst (parse_rows nd pre), Some e) \<and>
           strptime nd d = Inl e \<and> date_error e"
proof -
  from assms(4) obtain e where e: "strptime nd d = Inl e"
    by (cases "strptime nd d") (auto simp: strptime_iff_lenient)
  then have "parse_row nd row = Inl e"
    by (simp add: parse_row_cells [OF assms(3)])
  from parse_rows_raise [OF assms(2) this, of post] e strptime_error [OF e]
  show ?thesis
    by (auto simp: parse_spreadsheet_def assms(1) date_error_def)
qed

theorem nonconforming_date_aborts_witness:
  "lenient_date ascii_only (U ''2016-01-01'') = None \<and>
   (\<exists>e. parse_spreadsheet ascii_only (Inr (document [acme_row, iso_date_row, beta_row])) =
      ([acme], Some e) \<and>
      strptime ascii_only (U ''2016-01-01'') = Inl e \<and> date_error e)"
  using nonconforming_date_aborts [OF findall_rows_examples(4) parse_rows_acme(1)
      row_cells_examples(4) lenient_examples(1), of ascii_only]
  by (simp add: parse_row_acme lenient_examples)

section \<open>Rows that are not data rows\<close>

text \<open>
  Claim C4. A row whose number of cells is not three raises nothing and yields nothing:
  the parser does on the table what it does on the other rows alone. A table of a row of
  two cells and two valid rows of three yields exactly two records.
\<close>

theorem non_data_row_skipped:
  assumes "findall_rows root = pre @ row # post"
    and "length (findall_td row) \<noteq> 3"
  shows "parse_row nd row = Inr None \<and>
         parse_spreadsheet nd (Inr root) = parse_rows nd (pre @ post)"
proof -
  from assms(2) have "parse_row nd row = Inr None"
    by (simp add: parse_row_skip data_row_def)
  then show ?thesis
    by (cases "parse_rows nd pre")
       (simp add: parse_spreadsheet_def assms(1) parse_rows_append)
qed

theorem non_data_row_skipped_witness:
  "length (findall_td spacer_row) = 2 \<and>
   parse_row ascii_only spacer_row = Inr None \<and>
   parse_spreadsheet ascii_only (Inr (document [acme_row, spacer_row, beta_row])) =
     ([acme, beta], None)"
proof -
  have l: "length (findall_td spacer_row) = 2"
    by (simp add: findall_defs example_defs U_def)
  then have "length (findall_td spacer_row) \<noteq> 3" by simp
  from non_data_row_skipped [OF findall_rows_examples(6) this, of ascii_only] l
  show ?thesis by (simp add: parse_row_acme parse_row_beta)
qed

section \<open>Cells without text\<close>

text \<open>
  Claim C9. When the iteration reaches a row of exactly three cells of which one has no
  text, the parser raises \<^verbatim>\<open>AttributeError\<close> at that row: it does not pass over the row,
  yields no record for it, and raises neither the error of the ID check nor one of the date.
\<close>

theorem cell_without_text_raises:
  assumes "findall_rows root = pre @ row # post"
    and "snd (parse_rows nd pre) = None"
    and "length (findall_td row) = 3"
    and "\<exists>c \<in> set (findall_td row). elem_text c = None"
  shows "parse_spreadsheet nd (Inr root) = (fst (parse_rows nd pre), Some AttributeError)"
proof -
  from assms(3,4) have "parse_row nd row = Inl AttributeError"
    by (simp add: parse_row_no_text data_row_def)
  from parse_rows_raise [OF assms(2) this] show ?thesis
    by (simp add: parse_spreadsheet_def assms(1))
qed

theorem cell_without_text_raises_witness:
  "length (findall_td no_text_row) = 3 \<and>
   map elem_text (findall_td no_text_row) = [Some (U ''No Text Ltd''), None, Some (U ''01/01/2016'')] \<and>
   parse_spreadsheet ascii_only (Inr (document [acme_row, no_text_row, beta_row])) =
     ([acme], Some AttributeError)"
proof -
  have f: "findall_td no_text_row = [cell ''No Text Ltd'', empty_cell, cell ''01/01/2016'']"
    by (simp add: findall_defs example_defs row_defs U_def)
  have t: "map elem_text (findall_td no_text_row) =
             [Some (U ''No Text Ltd''), None, Some (U ''01/01/2016'')]"
    unfolding f by (simp add: cell_def empty_cell_def)
  have l: "length (findall_td no_text_row) = 3"
    unfolding f by simp
  have n: "\<exists>c \<in> set (findall_td no_text_row). elem_text c = None"
    unfolding f by (simp add: empty_cell_def)
  have "parse_spreadsheet ascii_only (Inr (document [acme_row, no_text_row, beta_row])) =
          ([acme], Some AttributeError)"
    using cell_without_text_raises [OF findall_rows_examples(5) parse_rows_acme(1) l n, of ascii_only]
    by (simp only: parse_rows_acme(2))
  with t l show ?thesis by blast
qed

section \<open>The lines of the generator\<close>

lemma U_append: "U (a @ b) = U a @ U b"
  by (simp add: U_def)

lemma generate_vendor_module_run:
  assumes "fst (iterate vendors) = (vs, raised)"
  shows "fst (generate_vendor_module vendors) =
           (preamble @ [opening_line] @ map vendor_line vs @
              (case raised of None \<Rightarrow> closing_lines | Some e \<Rightarrow> []), raised)"
  using assms by (cases "iterate vendors") (auto simp: generate_vendor_module_def)

lemma digits_small: "n < 10 \<Longrightarrow> digits n = [48 + n]"
  by (simp add: digits.simps)

lemma digits_large: "10 \<le> n \<Longrightarrow> digits n = digits (n div 10) @ [48 + n mod 10]"
  by (subst digits.simps) simp

lemma vendor_line_examples:
  "vendor_line acme = U ''    '' @ dq @ U ''ACM'' @ dq @ U '': pnp.Vendor('' @ dq @ U ''Acme Corp'' @ dq @
     U '', '' @ dq @ U ''ACM'' @ dq @ U '', datetime.date(2016, 1, 15)),''"
  "vendor_line beta = U ''    '' @ dq @ U ''BET'' @ dq @ U '': pnp.Vendor('' @ dq @ U ''Beta Inc'' @ dq @
     U '', '' @ dq @ U ''BET'' @ dq @ U '', datetime.date(2020, 6, 1)),''"
  by (simp_all add: vendor_line_def date_expr_def str_int_def digits_small digits_large acme_def beta_def)
     (simp_all add: U_def)

section \<open>The generated module\<close>

text \<open>
  Claim C5. For every sequence of vendor records that is read without an exception, the
  generator yields, and then ends: the five lines of the preamble (the marker of a
  generated file, the two markers that switch the linter and the formatter off, the two
  imports), the line that opens the mapping, one line per record, and the three last lines
  (the brace that closes the mapping, the marker that switches the formatter on again, and
  an empty line). The line of a record is its ID in quotes, a colon, and the call of
  \<^verbatim>\<open>pnp.Vendor\<close> on the name in quotes, the ID in quotes and the call of \<^verbatim>\<open>datetime.date\<close>
  on the year, the month and the day, each written as a number. The double quote is
  written as its code point, 34.
\<close>

theorem generate_vendor_module_lines:
  assumes "fst (iterate vendors) = (vs, None)"
  shows "fst (generate_vendor_module vendors) =
     ([U ''# THIS FILE WAS AUTOGENERATED BY make_vendor_list.py!'',
       U ''# pylint: disable=line-too-long,missing-docstring,too-many-lines'',
       U ''# yapf: disable'',
       U ''import datetime'',
       U ''from bios_pnp import pnp'',
       U ''VENDORS = {''] @
      map (\<lambda>v. U ''    '' @ [34] @ pnp_id v @ [34] @ U '': pnp.Vendor('' @ [34] @ name v @ [34] @ U '', '' @
                [34] @ pnp_id v @ [34] @ U '', datetime.date('' @ str_int (year (approval_date v)) @
                U '', '' @ str_int (month (approval_date v)) @ U '', '' @
                str_int (day (approval_date v)) @ U '')),'') vs @
      [U ''}'', U ''# yapf: enable'', U ''''],
      None)"
proof -
  have "vendor_line = (\<lambda>v. U ''    '' @ [34] @ pnp_id v @ [34] @ U '': pnp.Vendor('' @ [34] @ name v @ [34] @ U '', '' @
                [34] @ pnp_id v @ [34] @ U '', datetime.date('' @ str_int (year (approval_date v)) @
                U '', '' @ str_int (month (approval_date v)) @ U '', '' @
                str_int (day (approval_date v)) @ U '')),'')"
    by (rule ext) (simp add: vendor_line_def date_expr_def dq_def U_def)
  then show ?thesis
    by (simp add: generate_vendor_module_run [OF assms] preamble_def opening_line_def closing_lines_def)
       (simp add: U_def)
qed

theorem generate_vendor_module_lines_witness:
  "fst (generate_vendor_module (Sequence [acme, beta])) =
     ([U ''# THIS FILE WAS AUTOGENERATED BY make_vendor_list.py!'',
       U ''# pylint: disable=line-too-long,missing-docstring,too-many-lines'',
       U ''# yapf: disable'',
       U ''import datetime'',
       U ''from bios_pnp import pnp'',
       U ''VENDORS = {'',
       U ''    '' @ [34] @ U ''ACM'' @ [34] @ U '': pnp.Vendor('' @ [34] @ U ''Acme Corp'' @ [34] @ U '', '' @ [34] @
         U ''ACM'' @ [34] @ U '', datetime.date(2016, 1, 15)),'',
       U ''    '' @ [34] @ U ''BET'' @ [34] @ U '': pnp.Vendor('' @ [34] @ U ''Beta Inc'' @ [34] @ U '', '' @ [34] @
         U ''BET'' @ [34] @ U '', datetime.date(2020, 6, 1)),'',
       U ''}'', U ''# yapf: enable'', U ''''],
      None) \<and>
   fst (fst (generate_vendor_module (Sequence [acme, beta]))) ! 6 =
     [32, 32, 32, 32, 34, 65, 67, 77, 34, 58, 32, 112, 110, 112, 46, 86, 101, 110, 100, 111,
      114, 40, 34, 65, 99, 109, 101, 32, 67, 111, 114, 112, 34, 44, 32, 34, 65, 67, 77, 34, 44,
      32, 100, 97, 116, 101, 116, 105, 109, 101, 46, 100, 97, 116, 101, 40, 50, 48, 49, 54, 44,
      32, 49, 44, 32, 49, 53, 41, 41, 44]"
proof -
  have "fst (iterate (Sequence [acme, beta])) = ([acme, beta], None)" by simp
  from generate_vendor_module_lines [OF this] show ?thesis
    by (simp add: acme_def beta_def str_int_def digits_small digits_large) (simp add: U_def)
qed

section \<open>The order of the entries\<close>

text \<open>
  Claim C6. The lines between the line that opens the mapping and the brace that closes it
  are the lines of the records, in the order of the sequence, one for each record of the
  sequence: nothing is sorted and no record is left out, also when two records have the
  same ID.
\<close>

theorem entries_in_input_order:
  assumes "fst (iterate vendors) = (vs, None)"
  shows "length (fst (fst (generate_vendor_module vendors))) = length vs + 9 \<and>
         fst (fst (generate_vendor_module vendors)) ! 5 = opening_line \<and>
         take (length vs) (drop 6 (fst (fst (generate_vendor_module vendors)))) = map vendor_line vs \<and>
         fst (fst (generate_vendor_module vendors)) ! (length vs + 6) = U ''}''"
  by (simp add: generate_vendor_module_run [OF assms] preamble_def closing_lines_def nth_append)

theorem entries_in_input_order_witness:
  "vendor_line beta \<noteq> vendor_line acme \<and>
   take 3 (drop 6 (fst (fst (generate_vendor_module (Sequence [beta, acme, acme]))))) =
     [vendor_line beta, vendor_line acme, vendor_line acme] \<and>
   length (fst (fst (generate_vendor_module (Sequence [beta, acme, acme])))) = 12"
proof -
  have "fst (iterate (Sequence [beta, acme, acme])) = ([beta, acme, acme], None)" by simp
  from entries_in_input_order [OF this] have
    "take 3 (drop 6 (fst (fst (generate_vendor_module (Sequence [beta, acme, acme]))))) =
       [vendor_line beta, vendor_line acme, vendor_line acme]"
    "length (fst (fst (generate_vendor_module (Sequence [beta, acme, acme])))) = 12"
    by (simp_all add: numeral_3_eq_3)
  moreover have "vendor_line beta \<noteq> vendor_line acme"
    by (simp add: vendor_line_examples U_def dq_def)
  ultimately show ?thesis by simp
qed

section \<open>Reading the input again\<close>

text \<open>
  What a second run of the generator finds depends on what it is given: a generator
  object, once read, has nothing left, and a sequence is read again from its start.
\<close>

lemma generator_read_once:
  "fst (generate_vendor_module (snd (generate_vendor_module (Generator (vs, None))))) =
     (preamble @ [opening_line] @ closing_lines, None)"
  by (simp add: generate_vendor_module_def)

lemma sequence_read_again:
  "snd (generate_vendor_module (Sequence vs)) = Sequence vs"
  by (simp add: generate_vendor_module_def)

section \<open>Failure and the output file\<close>

text \<open>
  Claim C10. When the output file can be opened, and reading or parsing the input raises
  an exception, the process dies of that exception with the output file left empty,
  whatever the file held before.
\<close>

theorem failure_leaves_output_empty:
  assumes "snd (parse_spreadsheet nd file) = Some e"
  shows "main nd file True old_content = (Some [], Some e)"
proof -
  obtain vs where "parse_spreadsheet nd file = (vs, Some e)"
    using assms by (cases "parse_spreadsheet nd file") auto
  then show ?thesis
    by (simp add: main_def generate_vendor_module_def)
qed

theorem failure_leaves_output_empty_witness:
  "snd (parse_spreadsheet ascii_only (Inr (document [acme_row, short_id_row, beta_row]))) =
     Some PnpIdLength \<and>
   main ascii_only (Inr (document [acme_row, short_id_row, beta_row])) True
     (Some (U ''VENDORS = {}'')) = (Some [], Some PnpIdLength)"
proof -
  have "parse_row ascii_only short_id_row = Inl PnpIdLength"
    by (simp add: parse_row_cells [OF row_cells_examples(1)] strptime_valid_example) (simp add: U_def)
  then have p: "snd (parse_spreadsheet ascii_only (Inr (document [acme_row, short_id_row, beta_row]))) =
      Some PnpIdLength"
    by (simp add: parse_spreadsheet_def findall_rows_examples parse_row_acme)
  from failure_leaves_output_empty [OF p] p show ?thesis by simp
qed

lemma main_success:
  assumes "parse_spreadsheet nd file = (vs, None)"
  shows "main nd file True old_content =
           (Some (join_lines (preamble @ [opening_line] @ map vendor_line vs @ closing_lines)), None)"
  using assms by (simp add: main_def generate_vendor_module_def)

lemma main_cannot_open: "main nd file False old_content = (old_content, Some OutputError)"
  by (simp add: main_def)

section \<open>Reading the generated module back\<close>

lemma digits_nonempty: "digits n \<noteq> []"
  by (subst digits.simps) simp

lemma digits_ascii: "c \<in> set (digits n) \<Longrightarrow> ascii_digit c"
proof (induction n rule: digits.induct)
  case (1 n)
  show ?case
  proof (cases "n < 10")
    case True
    with "1.prems" show ?thesis by (simp add: digits_small ascii_digit_def)
  next
    case False
    have "n mod 10 < 10" by simp
    then have "ascii_digit (48 + n mod 10)" unfolding ascii_digit_def by linarith
    with False "1.prems" "1.IH" show ?thesis by (auto simp: digits_large)
  qed
qed

lemma digits_value: "foldl (\<lambda>a c. 10 * a + digit_value c) 0 (digits n) = int n"
proof (induction n rule: digits.induct)
  case (1 n)
  show ?case
  proof (cases "n < 10")
    case True
    then show ?thesis by (simp add: digits_small digit_value_def)
  next
    case False
    with "1.IH" show ?thesis
      by (simp add: digits_large digit_value_def) presburger
  qed
qed

lemma digits_hd: "0 < n \<Longrightarrow> hd (digits n) \<noteq> 48"
proof (induction n rule: digits.induct)
  case (1 n)
  show ?case
  proof (cases "n < 10")
    case True
    with "1.prems" show ?thesis by (simp add: digits_small)
  next
    case False
    then have "0 < n div 10" by simp
    with False "1.IH" show ?thesis by (simp add: digits_large digits_nonempty)
  qed
qed

lemma digits_no_leading_zero: "\<not> (hd (digits n) = 48 \<and> 1 < length (digits n))"
proof (cases "n < 10")
  case True
  then show ?thesis by (simp add: digits_small)
next
  case False
  then show ?thesis using digits_hd [of n] by simp
qed

lemma int_literal_digits:
  assumes "\<not> ascii_digit c"
  shows "int_literal (digits n @ c # r) = Some (int n, c # r)"
proof -
  have "takeWhile ascii_digit (digits n @ c # r) = digits n"
    using assms by (simp add: takeWhile_tail digits_ascii)
  then show ?thesis
    using digits_no_leading_zero [of n]
    by (auto simp: int_literal_def Let_def digits_nonempty digits_value)
qed

lemma safe_text_no_quote: "safe_text b \<Longrightarrow> 34 \<notin> set b"
  by (auto simp: safe_text_def hostile_def)

lemma safe_text_no_newline: "safe_text b \<Longrightarrow> 10 \<notin> set b"
  by (auto simp: safe_text_def hostile_def)

lemma string_literal_quote:
  assumes "safe_text b"
  shows "string_literal (b @ 34 # r) = Some (b, r)"
proof -
  have "takeWhile (\<lambda>c. c \<noteq> 34) (b @ 34 # r) = b"
    using safe_text_no_quote [OF assms] by (auto simp: takeWhile_tail)
  then show ?thesis
    using assms by (simp add: string_literal_def)
qed

lemma valid_dateD:
  assumes "valid_date d"
  shows "0 \<le> year d" "0 \<le> month d" "0 \<le> day d"
    "make_date (year d) (month d) (day d) = Inr d"
  using assms by (auto simp: valid_date_def make_date_def split: if_splits)

lemma load_entry_vendor_line:
  assumes "safe_text (name v)" "safe_text (pnp_id v)" "valid_date (approval_date v)"
  shows "load_entry (vendor_line v) = Some (pnp_id v, v)"
proof -
  define y where "y = nat (year (approval_date v))"
  define m where "m = nat (month (approval_date v))"
  define d where "d = nat (day (approval_date v))"
  note vd = valid_dateD [OF assms(3)]
  have ints: "str_int (year (approval_date v)) = digits y"
    "str_int (month (approval_date v)) = digits m" "str_int (day (approval_date v)) = digits d"
    using vd by (simp_all add: str_int_def y_def m_def d_def)
  have mk: "make_date (int y) (int m) (int d) = Inr (approval_date v)"
    using vd by (simp add: y_def m_def d_def)
  have shape: "vendor_line v =
      U ''    '' @ dq @ pnp_id v @ 34 # U '': pnp.Vendor('' @ dq @ name v @ 34 # U '', '' @ dq @
      pnp_id v @ 34 # U '', datetime.date('' @ digits y @ 44 # 32 # digits m @ 44 # 32 #
      digits d @ 41 # U ''),''"
    by (simp add: vendor_line_def date_expr_def ints dq_def U_def)
  have nd: "\<not> ascii_digit 44" "\<not> ascii_digit 41"
    by (simp_all add: ascii_digit_def)
  show ?thesis
    unfolding shape load_entry_def
    by (simp add: expect_def U_def dq_def string_literal_quote assms int_literal_digits nd mk)
qed

lemma split_join:
  assumes "ls \<noteq> []" "\<forall>l \<in> set ls. 10 \<notin> set l"
  shows "split_on 10 (join_lines ls) = ls"
  using assms
proof (induction ls rule: join_lines.induct)
  case 1
  then show ?case by simp
next
  case (2 l)
  then show ?case by (simp add: split_on_no_sep)
next
  case (3 l m ls)
  then show ?case by (simp add: split_on_append)
qed

lemma digits_no_newline: "10 \<notin> set (digits n)"
  using digits_ascii [of 10 n] by (auto simp: ascii_digit_def)

lemma vendor_line_no_newline:
  assumes "safe_text (name v)" "safe_text (pnp_id v)"
  shows "10 \<notin> set (vendor_line v)"
  using safe_text_no_newline [OF assms(1)] safe_text_no_newline [OF assms(2)]
  by (simp add: vendor_line_def date_expr_def str_int_def digits_no_newline dq_def U_def)

lemma fixed_lines_no_newline:
  "\<forall>l \<in> set preamble. 10 \<notin> set l" "10 \<notin> set opening_line" "\<forall>l \<in> set closing_lines. 10 \<notin> set l"
  by (simp_all add: preamble_def opening_line_def closing_lines_def U_def)

lemma vendor_line_is_entry:
  "\<not> blank_or_comment (vendor_line v)" "vendor_line v \<noteq> U ''}''"
  by (simp_all add: vendor_line_def blank_or_comment_def dq_def U_def)

lemma load_lines_entries:
  assumes "\<forall>v \<in> set vs. safe_text (name v) \<and> safe_text (pnp_id v) \<and> valid_date (approval_date v)"
  shows "load_lines True True (Some entries) vendors (map vendor_line vs @ rest) =
           load_lines True True (Some (entries @ map (\<lambda>v. (pnp_id v, v)) vs)) vendors rest"
  using assms
proof (induction vs arbitrary: entries)
  case Nil
  then show ?case by simp
next
  case (Cons v vs)
  then have "load_entry (vendor_line v) = Some (pnp_id v, v)"
    by (simp add: load_entry_vendor_line)
  with Cons show ?case
    by (simp add: vendor_line_is_entry)
qed

lemma load_lines_preamble:
  "load_lines False False None None (preamble @ [opening_line] @ rest) =
     load_lines True True (Some []) None rest"
  by (simp add: preamble_def opening_line_def blank_or_comment_def U_def)

lemma load_lines_closing:
  "load_lines True True (Some entries) None closing_lines = Some entries"
  by (simp add: closing_lines_def blank_or_comment_def U_def)

lemma load_module_generated:
  assumes "\<forall>v \<in> set vs. safe_text (name v) \<and> safe_text (pnp_id v) \<and> valid_date (approval_date v)"
  shows "load_module (join_lines (preamble @ [opening_line] @ map vendor_line vs @ closing_lines)) =
           Some (mapping_of (map (\<lambda>v. (pnp_id v, v)) vs))"
proof -
  let ?lines = "preamble @ [opening_line] @ map vendor_line vs @ closing_lines"
  have "\<forall>l \<in> set ?lines. 10 \<notin> set l"
    using assms fixed_lines_no_newline by (auto simp: vendor_line_no_newline)
  then have sp: "split_on 10 (join_lines ?lines) = ?lines"
    by (intro split_join) simp_all
  have "load_lines False False None None ?lines =
          load_lines True True (Some []) None (map vendor_line vs @ closing_lines)"
    by (rule load_lines_preamble)
  also have "\<dots> = load_lines True True (Some ([] @ map (\<lambda>v. (pnp_id v, v)) vs)) None closing_lines"
    by (rule load_lines_entries [OF assms])
  also have "\<dots> = Some (map (\<lambda>v. (pnp_id v, v)) vs)"
    by (simp add: load_lines_closing)
  finally show ?thesis
    unfolding load_module_def sp by simp
qed

lemma mapping_of_fold:
  "fold (\<lambda>(k, v) m. m(k \<mapsto> v)) es m0 = m0 ++ map_of (rev es)"
  by (induction es arbitrary: m0) (auto simp: map_add_upd_left)

lemma mapping_of_map_of: "mapping_of es = map_of (rev es)"
  by (simp add: mapping_of_def mapping_of_fold)

lemma dom_mapping_of: "dom (mapping_of es) = fst ` set es"
  by (simp add: mapping_of_map_of dom_map_of_conv_image_fst)

lemma mapping_of_distinct:
  assumes "distinct (map fst es)" "(k, v) \<in> set es"
  shows "mapping_of es k = Some v"
  using assms by (simp add: mapping_of_map_of rev_map [symmetric])

text \<open>
  Claim C7. For records whose name and ID have no character that is hostile to quoting
  (a double quote, a backslash, a line end, a null character, a surrogate or a number that
  is no code point) and whose date is a date of the calendar, the text of the generated module (its lines joined by line ends) loads
  as the mapping with an entry from the ID to the record for each record, a later record
  replacing an earlier one with the same ID. Its keys are the IDs of the records and, when
  the IDs are distinct, the value at the ID of a record is the record itself: its name, its
  ID and its date.
\<close>

theorem generated_module_loads:
  assumes "\<forall>v \<in> set vs. safe_text (name v) \<and> safe_text (pnp_id v) \<and> valid_date (approval_date v)"
  shows "\<exists>m. load_module (join_lines (fst (fst (generate_vendor_module (Sequence vs))))) = Some m \<and>
           m = mapping_of (map (\<lambda>v. (pnp_id v, v)) vs) \<and>
           dom m = pnp_id ` set vs \<and>
           (distinct (map pnp_id vs) \<longrightarrow> (\<forall>v \<in> set vs. m (pnp_id v) = Some v))"
proof -
  have "fst (fst (generate_vendor_module (Sequence vs))) =
          preamble @ [opening_line] @ map vendor_line vs @ closing_lines"
    by (simp add: generate_vendor_module_def)
  with load_module_generated [OF assms] have
    "load_module (join_lines (fst (fst (generate_vendor_module (Sequence vs))))) =
       Some (mapping_of (map (\<lambda>v. (pnp_id v, v)) vs))"
    by simp
  moreover have "dom (mapping_of (map (\<lambda>v. (pnp_id v, v)) vs)) = pnp_id ` set vs"
    by (simp add: dom_mapping_of image_image)
  moreover have "mapping_of (map (\<lambda>v. (pnp_id v, v)) vs) (pnp_id v) = Some v"
    if "distinct (map pnp_id vs)" "v \<in> set vs" for v
    using that by (intro mapping_of_distinct) (simp_all add: comp_def)
  ultimately show ?thesis by blast
qed

theorem generated_module_loads_witness:
  "safe_text (name acme) \<and> safe_text (pnp_id acme) \<and> valid_date (approval_date acme) \<and>
   safe_text (name beta) \<and> safe_text (pnp_id beta) \<and> valid_date (approval_date beta) \<and>
   (\<exists>m. load_module (join_lines (fst (fst (generate_vendor_module (Sequence [acme, beta]))))) = Some m \<and>
      dom m = {U ''ACM'', U ''BET''} \<and> m (U ''ACM'') = Some acme \<and> m (U ''BET'') = Some beta)"
proof -
  have s: "safe_text (name acme)" "safe_text (pnp_id acme)" "valid_date (approval_date acme)"
    "safe_text (name beta)" "safe_text (pnp_id beta)" "valid_date (approval_date beta)"
    by (simp_all add: acme_def beta_def safe_text_def hostile_def U_def valid_date_def make_date_def
        days_in_month_def)
  then have h: "\<forall>v \<in> set [acme, beta]. safe_text (name v) \<and> safe_text (pnp_id v) \<and>
      valid_date (approval_date v)"
    by simp
  have i: "pnp_id acme = U ''ACM''" "pnp_id beta = U ''BET''" "U ''ACM'' \<noteq> U ''BET''"
    by (simp_all add: acme_def beta_def U_def)
  then have "distinct (map pnp_id [acme, beta])" by simp
  with generated_module_loads [OF h] i s show ?thesis
    by (auto simp: insert_commute)
qed

end
